theory Spec2Isabelle
  imports Complex_Main
begin

section \<open>JSON values and the Python operations applied to them\<close>

text \<open>
  The handlers of \<^verbatim>\<open>backend_server.py\<close> receive whatever \<^verbatim>\<open>request.get_json()\<close> parsed:
  \<^verbatim>\<open>None\<close>, a bool, an int, a float, a str, a list or a dict. A float is kept by the
  number it denotes. A dict is kept as its items in insertion order.
\<close>

datatype json =
    JNull
  | JBool bool
  | JInt int
  | JFloat rat
  | JStr string
  | JArr "json list"
  | JObj "(string \<times> json) list"

datatype py_error = TypeError | AttributeError | KeyError | ValueError

text \<open>Python truth value, as tested by \<^verbatim>\<open>if not data\<close>.\<close>

fun truthy :: "json \<Rightarrow> bool" where
  "truthy JNull = False"
| "truthy (JBool b) = b"
| "truthy (JInt i) = (i \<noteq> 0)"
| "truthy (JFloat r) = (r \<noteq> 0)"
| "truthy (JStr s) = (s \<noteq> [])"
| "truthy (JArr xs) = (xs \<noteq> [])"
| "truthy (JObj kvs) = (kvs \<noteq> [])"

fun startswith :: "'a list \<Rightarrow> 'a list \<Rightarrow> bool" where
  "startswith [] s = True"
| "startswith (p # ps) [] = False"
| "startswith (p # ps) (c # cs) = (p = c \<and> startswith ps cs)"

text \<open>\<^verbatim>\<open>sub in s\<close> on two strings.\<close>

fun is_substr :: "'a list \<Rightarrow> 'a list \<Rightarrow> bool" where
  "is_substr sub [] = (sub = [])"
| "is_substr sub (c # cs) = (startswith sub (c # cs) \<or> is_substr sub cs)"

text \<open>
  \<^verbatim>\<open>key in x\<close> for a string key: key membership on a dict, element membership on a
  list (a str equals only the same str), substring on a str, \<^verbatim>\<open>TypeError\<close> on anything
  else.
\<close>

fun py_in :: "string \<Rightarrow> json \<Rightarrow> py_error + bool" where
  "py_in k (JObj kvs) = Inr (k \<in> set (map fst kvs))"
| "py_in k (JArr xs) = Inr (JStr k \<in> set xs)"
| "py_in k (JStr s) = Inr (is_substr k s)"
| "py_in k _ = Inl TypeError"

text \<open>
  \<^verbatim>\<open>k1 not in x or k2 not in x or ...\<close>, negated: \<^verbatim>\<open>Inr True\<close> when every key is in,
  \<^verbatim>\<open>Inr False\<close> at the first key that is not, the exception of the first test that
  raises.
\<close>

fun py_all_in :: "string list \<Rightarrow> json \<Rightarrow> py_error + bool" where
  "py_all_in [] x = Inr True"
| "py_all_in (k # ks) x =
     (case py_in k x of
        Inl e \<Rightarrow> Inl e
      | Inr b \<Rightarrow> if b then py_all_in ks x else Inr False)"

text \<open>\<^verbatim>\<open>x[key]\<close> for a string key.\<close>

fun py_getitem :: "json \<Rightarrow> string \<Rightarrow> py_error + json" where
  "py_getitem (JObj kvs) k = (case map_of kvs k of None \<Rightarrow> Inl KeyError | Some v \<Rightarrow> Inr v)"
| "py_getitem _ k = Inl TypeError"

text \<open>\<^verbatim>\<open>x.get(key, default)\<close>: only a dict has the method.\<close>

definition dict_get :: "(string \<times> json) list \<Rightarrow> string \<Rightarrow> json \<Rightarrow> json" where
  "dict_get kvs k d = (case map_of kvs k of None \<Rightarrow> d | Some v \<Rightarrow> v)"

fun py_get :: "json \<Rightarrow> string \<Rightarrow> json \<Rightarrow> py_error + json" where
  "py_get (JObj kvs) k d = Inr (dict_get kvs k d)"
| "py_get _ k d = Inl AttributeError"

text \<open>
  Whether a value can be a dict key, and the key it is: \<^verbatim>\<open>True\<close>, \<^verbatim>\<open>1\<close> and \<^verbatim>\<open>1.0\<close>
  are equal and hash alike, so they are one key.
\<close>

fun hashable :: "json \<Rightarrow> bool" where
  "hashable (JArr _) = False"
| "hashable (JObj _) = False"
| "hashable _ = True"

fun py_key :: "json \<Rightarrow> json" where
  "py_key (JBool b) = JInt (if b then 1 else 0)"
| "py_key (JFloat r) = (if of_int (floor r) = r then JInt (floor r) else JFloat r)"
| "py_key v = v"

text \<open>Decimal text of a natural number, for the f-strings of the messages.\<close>

definition digit_char :: "nat \<Rightarrow> char" where
  "digit_char d = char_of (48 + d)"

function show_nat :: "nat \<Rightarrow> string" where
  "show_nat n = (if n < 10 then [digit_char n] else show_nat (n div 10) @ [digit_char (n mod 10)])"
  by pat_completeness auto
termination
  by (relation "measure id") auto

declare show_nat.simps [simp del]

section \<open>The coordination store\<close>

datatype status = Pending | Processing | Completed

record request =
  data :: json
  status :: status
  timestamp :: rat

record solution_entry =
  solution :: json
  sol_timestamp :: rat

record fleet_config =
  vehicles :: "json list"
  depot :: json

record position_data =
  pos_x :: json
  pos_y :: json
  pos_status :: json
  route_id :: json
  target_x :: json
  target_y :: json
  pos_timestamp :: rat

text \<open>
  \<^verbatim>\<open>CVRPBackendServer\<close>. \<^verbatim>\<open>requests\<close> is iterated in insertion order by
  \<^verbatim>\<open>get_pending_request\<close>, so it is kept as the list of its items; the other dicts are
  only looked up. The fields no modelled handler touches (\<^verbatim>\<open>registered_agents\<close>,
  \<^verbatim>\<open>logs_base_dir\<close>, \<^verbatim>\<open>agent_status\<close>) are left out.
\<close>

record server =
  requests :: "(string \<times> request) list"
  solutions :: "string \<rightharpoonup> solution_entry"
  vehicle_positions :: "json \<rightharpoonup> position_data"
  vehicle_config :: "fleet_config option"
  vehicle_config_timestamp :: "rat option"

definition init_server :: server where
  "init_server = \<lparr>requests = [], solutions = Map.empty, vehicle_positions = Map.empty,
     vehicle_config = None, vehicle_config_timestamp = None\<rparr>"

text \<open>\<^verbatim>\<open>d[k] = v\<close> on an insertion-ordered dict: a known key keeps its place.\<close>

fun dict_set :: "'k \<Rightarrow> 'v \<Rightarrow> ('k \<times> 'v) list \<Rightarrow> ('k \<times> 'v) list" where
  "dict_set k v [] = [(k, v)]"
| "dict_set k v ((k', v') # kvs) =
     (if k' = k then (k, v) # kvs else (k', v') # dict_set k v kvs)"

text \<open>\<^verbatim>\<open>d[k][field] = ...\<close>: the value stored under \<^verbatim>\<open>k\<close> is changed in place.\<close>

fun dict_update :: "'k \<Rightarrow> ('v \<Rightarrow> 'v) \<Rightarrow> ('k \<times> 'v) list \<Rightarrow> ('k \<times> 'v) list" where
  "dict_update k f [] = []"
| "dict_update k f ((k', v') # kvs) =
     (if k' = k then (k', f v') # kvs else (k', v') # dict_update k f kvs)"

definition keys :: "('k \<times> 'v) list \<Rightarrow> 'k set" where
  "keys kvs = set (map fst kvs)"

text \<open>
  \<^verbatim>\<open>add_request\<close>. The identifier \<^verbatim>\<open>str(uuid.uuid4())\<close> and the clock \<^verbatim>\<open>time.time()\<close>
  are inputs of the model.
\<close>

definition add_request :: "server \<Rightarrow> json \<Rightarrow> string \<Rightarrow> rat \<Rightarrow> server \<times> string" where
  "add_request s request_data request_id now =
     (s\<lparr>requests := dict_set request_id
          \<lparr>data = request_data, status = Pending, timestamp = now\<rparr> (requests s)\<rparr>,
      request_id)"

text \<open>
  The loop of \<^verbatim>\<open>get_pending_request\<close> over \<^verbatim>\<open>self.requests.items()\<close>: the first item
  whose status is pending is set to processing and returned with its data.
\<close>

fun claim_scan :: "(string \<times> request) list \<Rightarrow> (string \<times> request) list \<times> (string \<times> json) option" where
  "claim_scan [] = ([], None)"
| "claim_scan ((req_id, req_data) # rest) =
     (if status req_data = Pending
      then ((req_id, req_data\<lparr>status := Processing\<rparr>) # rest, Some (req_id, data req_data))
      else (case claim_scan rest of (rest', r) \<Rightarrow> ((req_id, req_data) # rest', r)))"

definition get_pending_request :: "server \<Rightarrow> server \<times> (string \<times> json) option" where
  "get_pending_request s =
     (case claim_scan (requests s) of (reqs', r) \<Rightarrow> (s\<lparr>requests := reqs'\<rparr>, r))"

definition add_solution :: "server \<Rightarrow> string \<Rightarrow> json \<Rightarrow> rat \<Rightarrow> server \<times> bool" where
  "add_solution s request_id solution_data now =
     (if request_id \<in> keys (requests s)
      then (s\<lparr>requests := dict_update request_id (\<lambda>r. r\<lparr>status := Completed\<rparr>) (requests s),
              solutions := (solutions s)(request_id \<mapsto>
                 \<lparr>solution = solution_data, sol_timestamp = now\<rparr>)\<rparr>, True)
      else (s, False))"

definition get_solution :: "server \<Rightarrow> string \<Rightarrow> json option" where
  "get_solution s request_id =
     (case solutions s request_id of Some e \<Rightarrow> Some (solution e) | None \<Rightarrow> None)"

section \<open>The HTTP handlers\<close>

text \<open>
  A response is \<^verbatim>\<open>jsonify(body), code\<close>, or \<^verbatim>\<open>'', code\<close>, or the
  \<^verbatim>\<open>jsonify({'error': str(e)}), 500\<close> of an \<^verbatim>\<open>except Exception\<close> clause.
\<close>

datatype response = JsonResp json nat | EmptyResp nat | Error500 py_error

definition status_str :: "status \<Rightarrow> string" where
  "status_str st = (case st of Pending \<Rightarrow> ''pending'' | Processing \<Rightarrow> ''processing''
     | Completed \<Rightarrow> ''completed'')"

text \<open>\<^verbatim>\<open>poll_request\<close>; \<^verbatim>\<open>action\<close> is \<^verbatim>\<open>request.args.get('action', 'poll')\<close>.\<close>

definition poll_request :: "server \<Rightarrow> string \<Rightarrow> server \<times> response" where
  "poll_request s action =
     (if action = ''poll''
      then (case get_pending_request s of
              (s', Some (req_id, req_data)) \<Rightarrow>
                 if req_id \<noteq> [] \<and> truthy req_data
                 then (s', JsonResp (JObj [(''request_id'', JStr req_id), (''data'', req_data)]) 200)
                 else (s', EmptyResp 204)
            | (s', None) \<Rightarrow> (s', EmptyResp 204))
      else (s, JsonResp (JObj [(''error'', JStr ''Invalid action'')]) 400))"

text \<open>The validation loop of the customers, \<^verbatim>\<open>enumerate\<close> counting from \<^verbatim>\<open>i\<close>:
  the index of the first customer refused, if any.\<close>

fun check_customers :: "nat \<Rightarrow> json list \<Rightarrow> py_error + nat option" where
  "check_customers i [] = Inr None"
| "check_customers i (customer # cs) =
     (case py_all_in [''id'', ''demand'', ''x'', ''y''] customer of
        Inl e \<Rightarrow> Inl e
      | Inr ok \<Rightarrow> if ok then check_customers (Suc i) cs else Inr (Some i))"

text \<open>
  \<^verbatim>\<open>submit_solution\<close>, the handler of \<^verbatim>\<open>POST /api/solve-cvrp\<close>: with
  \<^verbatim>\<open>action=response\<close> it records a solution, otherwise it takes a new request.
  \<^verbatim>\<open>request_id in self.requests\<close> raises \<^verbatim>\<open>TypeError\<close> on a list or a dict (unhashable)
  and is false on any other value that is not a str, the keys being strs.
\<close>

definition report_solution :: "server \<Rightarrow> json \<Rightarrow> rat \<Rightarrow> server \<times> response" where
  "report_solution s solution_data now =
     (if \<not> truthy solution_data
      then (s, JsonResp (JObj [(''error'', JStr ''No JSON data provided'')]) 400)
      else (case py_get solution_data ''request_id'' JNull of
              Inl e \<Rightarrow> (s, Error500 e)
            | Inr request_id \<Rightarrow>
                if \<not> truthy request_id
                then (s, JsonResp (JObj [(''error'', JStr ''Missing request_id'')]) 400)
                else (case request_id of
                        JArr _ \<Rightarrow> (s, Error500 TypeError)
                      | JObj _ \<Rightarrow> (s, Error500 TypeError)
                      | JStr rid \<Rightarrow>
                          (case add_solution s rid solution_data now of
                             (s', success) \<Rightarrow>
                               if success
                               then (s', JsonResp (JObj [(''status'', JStr ''success''),
                                       (''message'', JStr ''Solution received'')]) 200)
                               else (s', JsonResp (JObj [(''error'', JStr ''Invalid request_id'')]) 400))
                      | _ \<Rightarrow> (s, JsonResp (JObj [(''error'', JStr ''Invalid request_id'')]) 400))))"

definition new_request :: "server \<Rightarrow> json \<Rightarrow> string \<Rightarrow> rat \<Rightarrow> server \<times> response" where
  "new_request s cvrp_data uuid now =
     (if \<not> truthy cvrp_data
      then (s, JsonResp (JObj [(''error'', JStr ''No JSON data provided'')]) 400)
      else (case py_in ''customers'' cvrp_data of
              Inl e \<Rightarrow> (s, Error500 e)
            | Inr has \<Rightarrow>
                if \<not> has
                then (s, JsonResp (JObj [(''error'',
                        JStr ''Missing or invalid field: customers (must be array)'')]) 400)
                else (case py_getitem cvrp_data ''customers'' of
                        Inl e \<Rightarrow> (s, Error500 e)
                      | Inr (JArr customers) \<Rightarrow>
                          (case check_customers 0 customers of
                             Inl e \<Rightarrow> (s, Error500 e)
                           | Inr (Some i) \<Rightarrow>
                               (s, JsonResp (JObj [(''error'', JStr (''Customer '' @ show_nat i
                                      @ '' must have: id, demand, x, y''))]) 400)
                           | Inr None \<Rightarrow>
                               (case add_request s cvrp_data uuid now of
                                  (s', request_id) \<Rightarrow>
                                    (s', JsonResp (JObj [(''request_id'', JStr request_id),
                                       (''status'', JStr ''submitted''),
                                       (''message'', JStr
                                          ''Request submitted successfully. Use polling to check for solution.'')])
                                       202)))
                      | Inr _ \<Rightarrow>
                          (s, JsonResp (JObj [(''error'',
                             JStr ''Missing or invalid field: customers (must be array)'')]) 400))))"

definition submit_solution ::
  "server \<Rightarrow> string option \<Rightarrow> json \<Rightarrow> string \<Rightarrow> rat \<Rightarrow> server \<times> response" where
  "submit_solution s action body uuid now =
     (if action = Some ''response'' then report_solution s body now
      else new_request s body uuid now)"

text \<open>\<^verbatim>\<open>get_solution_status\<close>, the handler of \<^verbatim>\<open>GET /api/solution/<request_id>\<close>.\<close>

definition get_solution_status :: "server \<Rightarrow> string \<Rightarrow> response" where
  "get_solution_status s request_id =
     (case map_of (requests s) request_id of
        Some request_info \<Rightarrow>
          (case get_solution s request_id of
             Some sol \<Rightarrow> JsonResp (JObj [(''request_id'', JStr request_id),
                 (''status'', JStr ''completed''), (''solution'', sol)]) 200
           | None \<Rightarrow> JsonResp (JObj [(''request_id'', JStr request_id),
                 (''status'', JStr (status_str (status request_info)))]) 200)
      | None \<Rightarrow> JsonResp (JObj [(''error'', JStr ''Request not found'')]) 404)"

text \<open>
  \<^verbatim>\<open>update_vehicle_position\<close>, the handler of \<^verbatim>\<open>POST /api/movement/update\<close>;
  \<^verbatim>\<open>body\<close> is the source's \<^verbatim>\<open>data\<close>. Storing under a list or a dict as key raises
  \<^verbatim>\<open>TypeError\<close>.
\<close>

definition update_vehicle_position :: "server \<Rightarrow> json \<Rightarrow> rat \<Rightarrow> server \<times> response" where
  "update_vehicle_position s body now =
     (if \<not> truthy body
      then (s, JsonResp (JObj [(''error'', JStr ''No JSON data provided'')]) 400)
      else (case body of
              JObj kvs \<Rightarrow>
                (let vehicle_name = dict_get kvs ''vehicle_name'' JNull in
                 if \<not> truthy vehicle_name
                 then (s, JsonResp (JObj [(''error'', JStr ''vehicle_name required'')]) 400)
                 else
                   (let position =
                      \<lparr>pos_x = dict_get kvs ''x'' (JFloat 0),
                       pos_y = dict_get kvs ''y'' (JFloat 0),
                       pos_status = dict_get kvs ''status'' (JStr ''idle''),
                       route_id = dict_get kvs ''route_id'' JNull,
                       target_x = dict_get kvs ''target_x'' JNull,
                       target_y = dict_get kvs ''target_y'' JNull,
                       pos_timestamp = now\<rparr>
                    in if hashable vehicle_name
                       then (s\<lparr>vehicle_positions :=
                                 (vehicle_positions s)(py_key vehicle_name \<mapsto> position)\<rparr>,
                             JsonResp (JObj [(''success'', JBool True),
                                (''vehicle'', vehicle_name)]) 200)
                       else (s, Error500 TypeError)))
            | _ \<Rightarrow> (s, Error500 AttributeError)))"

text \<open>The validation loop of \<^verbatim>\<open>confirm_vehicles\<close>.\<close>

fun check_vehicles :: "json list \<Rightarrow> py_error + bool" where
  "check_vehicles [] = Inr True"
| "check_vehicles (v # vs) =
     (case py_all_in [''name'', ''capacity'', ''maxDistance''] v of
        Inl e \<Rightarrow> Inl e
      | Inr ok \<Rightarrow> if ok then check_vehicles vs else Inr False)"

text \<open>
  The \<^verbatim>\<open>print\<close> loop of \<^verbatim>\<open>confirm_vehicles\<close> formats \<^verbatim>\<open>v['name']\<close>,
  \<^verbatim>\<open>v['capacity']\<close> and \<^verbatim>\<open>v['maxDistance']\<close> of every vehicle; what it prints is not
  modelled, the exception of a subscript is.
\<close>

fun print_vehicles :: "json list \<Rightarrow> py_error + unit" where
  "print_vehicles [] = Inr ()"
| "print_vehicles (v # vs) =
     (case py_getitem v ''name'' of
        Inl e \<Rightarrow> Inl e
      | Inr _ \<Rightarrow>
         (case py_getitem v ''capacity'' of
            Inl e \<Rightarrow> Inl e
          | Inr _ \<Rightarrow>
             (case py_getitem v ''maxDistance'' of
                Inl e \<Rightarrow> Inl e
              | Inr _ \<Rightarrow> print_vehicles vs)))"

text \<open>\<^verbatim>\<open>[v['name'] for v in vehicles]\<close>.\<close>

fun vehicle_names :: "json list \<Rightarrow> py_error + json list" where
  "vehicle_names [] = Inr []"
| "vehicle_names (v # vs) =
     (case py_getitem v ''name'' of
        Inl e \<Rightarrow> Inl e
      | Inr n \<Rightarrow> (case vehicle_names vs of Inl e \<Rightarrow> Inl e | Inr ns \<Rightarrow> Inr (n # ns)))"

definition default_depot :: json where
  "default_depot = JObj [(''name'', JStr ''Depot''), (''x'', JFloat 0), (''y'', JFloat 0)]"

text \<open>
  \<^verbatim>\<open>confirm_vehicles\<close>, the handler of \<^verbatim>\<open>POST /api/vehicles/confirm\<close>. The
  configuration is stored before the \<^verbatim>\<open>print\<close> loop and the response are built, so an
  exception raised there leaves it stored.
\<close>

definition confirm_vehicles :: "server \<Rightarrow> json \<Rightarrow> rat \<Rightarrow> server \<times> response" where
  "confirm_vehicles s body now =
     (if \<not> truthy body
      then (s, JsonResp (JObj [(''error'', JStr ''Invalid request - vehicles required'')]) 400)
      else (case py_in ''vehicles'' body of
              Inl e \<Rightarrow> (s, Error500 e)
            | Inr has \<Rightarrow>
                if \<not> has
                then (s, JsonResp (JObj [(''error'',
                        JStr ''Invalid request - vehicles required'')]) 400)
                else (case py_getitem body ''vehicles'' of
                        Inl e \<Rightarrow> (s, Error500 e)
                      | Inr (JArr vs) \<Rightarrow>
                          if vs = []
                          then (s, JsonResp (JObj [(''error'',
                                  JStr ''At least one vehicle required'')]) 400)
                          else (case check_vehicles vs of
                                  Inl e \<Rightarrow> (s, Error500 e)
                                | Inr ok \<Rightarrow>
                                    if \<not> ok
                                    then (s, JsonResp (JObj [(''error'', JStr
                                        ''Each vehicle must have: name, capacity, maxDistance'')]) 400)
                                    else (case py_get body ''depot'' default_depot of
                                            Inl e \<Rightarrow> (s, Error500 e)
                                          | Inr d \<Rightarrow>
                                             (let s' = s\<lparr>vehicle_config :=
                                                          Some \<lparr>vehicles = vs, depot = d\<rparr>,
                                                        vehicle_config_timestamp := Some now\<rparr>
                                              in case print_vehicles vs of
                                                   Inl e \<Rightarrow> (s', Error500 e)
                                                 | Inr _ \<Rightarrow>
                                                    (case vehicle_names vs of
                                                       Inl e \<Rightarrow> (s', Error500 e)
                                                     | Inr names \<Rightarrow>
                                                        (s', JsonResp (JObj [(''success'', JBool True),
                                                           (''message'', JStr (show_nat (length vs)
                                                              @ '' vehicles confirmed. Agents will be created.'')),
                                                           (''vehicles'', JArr names)]) 200)))))
                      | Inr _ \<Rightarrow>
                          (s, JsonResp (JObj [(''error'',
                             JStr ''At least one vehicle required'')]) 400))))"

text \<open>\<^verbatim>\<open>poll_vehicle_config\<close>, the handler of \<^verbatim>\<open>GET /api/vehicles/poll-config\<close>.\<close>

definition json_of_time :: "rat option \<Rightarrow> json" where
  "json_of_time t = (case t of None \<Rightarrow> JNull | Some r \<Rightarrow> JFloat r)"

definition poll_vehicle_config :: "server \<Rightarrow> server \<times> response" where
  "poll_vehicle_config s =
     (case vehicle_config s of
        None \<Rightarrow> (s, EmptyResp 204)
      | Some config \<Rightarrow>
          (s\<lparr>vehicle_config := None\<rparr>,
           JsonResp (JObj [(''vehicles'', JArr (vehicles config)),
              (''depot'', depot config),
              (''timestamp'', json_of_time (vehicle_config_timestamp s))]) 200))"

section \<open>Sequences of calls\<close>

text \<open>The calls that can change the store, each with the inputs of its handler.\<close>

datatype call =
    PollRequest string
  | SubmitSolution "string option" json string rat
  | UpdateVehiclePosition json rat
  | ConfirmVehicles json rat
  | PollVehicleConfig

fun handle :: "server \<Rightarrow> call \<Rightarrow> server \<times> response" where
  "handle s (PollRequest action) = poll_request s action"
| "handle s (SubmitSolution action body uuid now) = submit_solution s action body uuid now"
| "handle s (UpdateVehiclePosition body now) = update_vehicle_position s body now"
| "handle s (ConfirmVehicles body now) = confirm_vehicles s body now"
| "handle s PollVehicleConfig = poll_vehicle_config s"

fun run :: "server \<Rightarrow> call list \<Rightarrow> server" where
  "run s [] = s"
| "run s (c # cs) = run (fst (handle s c)) cs"

text \<open>
  The identifiers drawn by \<^verbatim>\<open>uuid.uuid4()\<close> along a sequence of calls are new: none is
  empty, none is already a key of the ledger when it is drawn. A call with
  \<^verbatim>\<open>action=response\<close> draws none.
\<close>

fun fresh_uuid :: "server \<Rightarrow> call \<Rightarrow> bool" where
  "fresh_uuid s (SubmitSolution action body uuid now) =
     (action = Some ''response'' \<or> (uuid \<noteq> [] \<and> uuid \<notin> keys (requests s)))"
| "fresh_uuid s _ = True"

fun fresh_uuids :: "server \<Rightarrow> call list \<Rightarrow> bool" where
  "fresh_uuids s [] = True"
| "fresh_uuids s (c # cs) = (fresh_uuid s c \<and> fresh_uuids (fst (handle s c)) cs)"

section \<open>What the handlers keep true of the ledger\<close>

text \<open>
  Every request in the ledger was put there by \<^verbatim>\<open>submit_solution\<close>: its identifier is
  not the empty string and its payload is not falsy.
\<close>

definition submitted_ok :: "(string \<times> request) list \<Rightarrow> bool" where
  "submitted_ok reqs = (\<forall>(k, r) \<in> set reqs. k \<noteq> [] \<and> truthy (data r))"

section \<open>Example inputs\<close>

definition payload1 :: json where
  "payload1 = JObj [(''customers'', JArr [JObj [(''id'', JStr ''C1''), (''demand'', JInt 3),
      (''x'', JInt 1), (''y'', JInt 1)]])]"

definition ledger3 :: server where
  "ledger3 = init_server\<lparr>requests :=
     [(''a'', \<lparr>data = payload1, status = Processing, timestamp = 1\<rparr>),
      (''b'', \<lparr>data = payload1, status = Pending, timestamp = 2\<rparr>),
      (''c'', \<lparr>data = payload1, status = Pending, timestamp = 3\<rparr>)]\<rparr>"

section \<open>Status transitions\<close>

text \<open>
  The transitions the specification allows a status to take in one call, and the
  transitions the handlers can make it take: \<^verbatim>\<open>add_solution\<close> sets completed whatever the
  status was.
\<close>

definition step_claimed :: "status \<Rightarrow> status \<Rightarrow> bool" where
  "step_claimed a b = (a = b \<or> (a = Pending \<and> b = Processing) \<or> (a = Processing \<and> b = Completed))"

definition step_ok :: "status \<Rightarrow> status \<Rightarrow> bool" where
  "step_ok a b = (a = b \<or> (a = Pending \<and> b = Processing) \<or> (a = Processing \<and> b = Completed)
     \<or> (a = Pending \<and> b = Completed))"

definition evolved :: "string \<times> request \<Rightarrow> string \<times> request \<Rightarrow> bool" where
  "evolved a b = (fst b = fst a \<and> step_ok (status (snd a)) (status (snd b)))"

text \<open>A submission followed by the report of a solution for it, with no poll between.\<close>

definition cx_submit :: call where
  "cx_submit = SubmitSolution None payload1 ''r1'' 0"

definition cx_report :: call where
  "cx_report = SubmitSolution (Some ''response'') (JObj [(''request_id'', JStr ''r1'')]) [] 1"

section \<open>Valid submissions\<close>

text \<open>
  A customer has a field when the handler's test \<^verbatim>\<open>key in customer\<close> is true: for a
  customer that is a JSON object, when the key is present.
\<close>

definition customer_has :: "string \<Rightarrow> json \<Rightarrow> bool" where
  "customer_has k c = (py_in k c = Inr True)"

definition valid_customers :: "json list \<Rightarrow> bool" where
  "valid_customers cs =
     (\<forall>c \<in> set cs. customer_has ''id'' c \<and> customer_has ''demand'' c
         \<and> customer_has ''x'' c \<and> customer_has ''y'' c)"

text \<open>
  The payloads the specification says are accepted (a non-empty customer list, every
  customer with id, demand, x and y), and the same without the demand that the list be
  non-empty.
\<close>

definition valid_submission_claimed :: "json \<Rightarrow> bool" where
  "valid_submission_claimed p =
     (case p of
        JObj kvs \<Rightarrow>
          (case map_of kvs ''customers'' of
             Some (JArr cs) \<Rightarrow> cs \<noteq> [] \<and> valid_customers cs
           | _ \<Rightarrow> False)
      | _ \<Rightarrow> False)"

definition valid_submission :: "json \<Rightarrow> bool" where
  "valid_submission p =
     (case p of
        JObj kvs \<Rightarrow>
          (case map_of kvs ''customers'' of
             Some (JArr cs) \<Rightarrow> valid_customers cs
           | _ \<Rightarrow> False)
      | _ \<Rightarrow> False)"

text \<open>The 202 response of an accepted submission; what counts as a rejection: a 400
  response with one error message, or the 500 response of a caught exception.\<close>

definition accepted_response :: "string \<Rightarrow> response" where
  "accepted_response request_id =
     JsonResp (JObj [(''request_id'', JStr request_id), (''status'', JStr ''submitted''),
        (''message'', JStr ''Request submitted successfully. Use polling to check for solution.'')])
       202"

definition is_rejection :: "response \<Rightarrow> bool" where
  "is_rejection r =
     (case r of
        JsonResp (JObj [(k, JStr msg)]) code \<Rightarrow> k = ''error'' \<and> code = 400
      | Error500 e \<Rightarrow> True
      | _ \<Rightarrow> False)"

definition empty_customers :: json where
  "empty_customers = JObj [(''customers'', JArr [])]"

definition no_demand :: json where
  "no_demand = JObj [(''customers'', JArr [JObj [(''id'', JStr ''C1''), (''x'', JInt 1), (''y'', JInt 1)]])]"

section \<open>Responses, store invariant and more example inputs\<close>

text \<open>The bodies \<^verbatim>\<open>jsonify\<close> is given by \<^verbatim>\<open>submit_solution\<close>, \<^verbatim>\<open>get_solution_status\<close>
  and \<^verbatim>\<open>poll_request\<close>.\<close>

definition solution_received :: response where
  "solution_received = JsonResp (JObj [(''status'', JStr ''success''),
     (''message'', JStr ''Solution received'')]) 200"


definition completed_response :: "string \<Rightarrow> json \<Rightarrow> response" where
  "completed_response request_id sol =
     JsonResp (JObj [(''request_id'', JStr request_id), (''status'', JStr ''completed''),
       (''solution'', sol)]) 200"

definition work_response :: "string \<Rightarrow> json \<Rightarrow> response" where
  "work_response request_id req_data =
     JsonResp (JObj [(''request_id'', JStr request_id), (''data'', req_data)]) 200"

text \<open>
  What every call keeps true of the store when identifiers are new: the keys of the ledger
  are distinct, as those of a dict are, and a solution is stored only under the key of a
  request.
\<close>

definition store_ok :: "server \<Rightarrow> bool" where
  "store_ok s = (distinct (map fst (requests s)) \<and> dom (solutions s) \<subseteq> keys (requests s))"

text \<open>Two solution bodies for the same request, and the states of a round trip.\<close>

definition sol_a :: json where
  "sol_a = JObj [(''request_id'', JStr ''b''), (''route'', JArr [JInt 1])]"

definition sol_b :: json where
  "sol_b = JObj [(''request_id'', JStr ''b''), (''route'', JArr [JInt 2])]"




section \<open>The fleet configuration mailbox: response and example\<close>

definition config_response :: "fleet_config \<Rightarrow> rat option \<Rightarrow> response" where
  "config_response c t =
     JsonResp (JObj [(''vehicles'', JArr (vehicles c)), (''depot'', depot c),
        (''timestamp'', json_of_time t)]) 200"

definition two_vehicles :: json where
  "two_vehicles = JObj [(''vehicles'', JArr
     [JObj [(''name'', JStr ''V1''), (''capacity'', JInt 10), (''maxDistance'', JInt 100)],
      JObj [(''name'', JStr ''V2''), (''capacity'', JInt 20), (''maxDistance'', JInt 150)]])]"

definition two_vehicles_config :: fleet_config where
  "two_vehicles_config = \<lparr>vehicles =
     [JObj [(''name'', JStr ''V1''), (''capacity'', JInt 10), (''maxDistance'', JInt 100)],
      JObj [(''name'', JStr ''V2''), (''capacity'', JInt 20), (''maxDistance'', JInt 150)]],
     depot = default_depot\<rparr>"

definition cfg_s1 :: server where
  "cfg_s1 = init_server\<lparr>vehicle_config := Some two_vehicles_config,
     vehicle_config_timestamp := Some 7\<rparr>"

text \<open>
  A vehicle that \<^verbatim>\<open>confirm_vehicles\<close> takes and can print: a JSON object with name, capacity
  and maxDistance. The 200 response of a confirmation, and a second fleet.
\<close>

definition valid_vehicle :: "json \<Rightarrow> bool" where
  "valid_vehicle v =
     (case v of
        JObj kvs \<Rightarrow> ''name'' \<in> fst ` set kvs \<and> ''capacity'' \<in> fst ` set kvs
                     \<and> ''maxDistance'' \<in> fst ` set kvs
      | _ \<Rightarrow> False)"

definition vehicle_name_of :: "json \<Rightarrow> json" where
  "vehicle_name_of v = (case v of JObj kvs \<Rightarrow> dict_get kvs ''name'' JNull | _ \<Rightarrow> JNull)"

definition confirmed_response :: "json list \<Rightarrow> response" where
  "confirmed_response vs =
     JsonResp (JObj [(''success'', JBool True),
        (''message'', JStr (show_nat (length vs) @ '' vehicles confirmed. Agents will be created.'')),
        (''vehicles'', JArr (map vehicle_name_of vs))]) 200"

definition one_vehicle :: "(string \<times> json) list" where
  "one_vehicle = [(''vehicles'', JArr
       [JObj [(''name'', JStr ''V3''), (''capacity'', JInt 5), (''maxDistance'', JInt 50)]]),
     (''depot'', JObj [(''name'', JStr ''D''), (''x'', JInt 1), (''y'', JInt 2)])]"

definition one_vehicle_config :: fleet_config where
  "one_vehicle_config = \<lparr>vehicles =
       [JObj [(''name'', JStr ''V3''), (''capacity'', JInt 5), (''maxDistance'', JInt 50)]],
     depot = JObj [(''name'', JStr ''D''), (''x'', JInt 1), (''y'', JInt 2)]\<rparr>"

definition cfg_s2 :: server where
  "cfg_s2 = cfg_s1\<lparr>vehicle_config := Some one_vehicle_config, vehicle_config_timestamp := Some 8\<rparr>"

section \<open>Vehicle telemetry: the stored entry, the response and examples\<close>

text \<open>The \<^verbatim>\<open>position_data\<close> dict that \<^verbatim>\<open>update_vehicle_position\<close> builds from the
  items of its body.\<close>

definition position_of :: "(string \<times> json) list \<Rightarrow> rat \<Rightarrow> position_data" where
  "position_of kvs now =
     \<lparr>pos_x = dict_get kvs ''x'' (JFloat 0),
      pos_y = dict_get kvs ''y'' (JFloat 0),
      pos_status = dict_get kvs ''status'' (JStr ''idle''),
      route_id = dict_get kvs ''route_id'' JNull,
      target_x = dict_get kvs ''target_x'' JNull,
      target_y = dict_get kvs ''target_y'' JNull,
      pos_timestamp = now\<rparr>"

definition position_updated :: "json \<Rightarrow> response" where
  "position_updated vehicle_name =
     JsonResp (JObj [(''success'', JBool True), (''vehicle'', vehicle_name)]) 200"

definition empty_name :: json where
  "empty_name = JObj [(''vehicle_name'', JStr [])]"

definition only_name :: "(string \<times> json) list" where
  "only_name = [(''vehicle_name'', JStr ''DA1'')]"

section \<open>Text, regular expressions and number conversions of the log parsers\<close>

text \<open>
  The log parsers of \<^verbatim>\<open>frontend 2/app.py\<close> read the text of a log file, a Python \<^verbatim>\<open>str\<close>, with
  \<^verbatim>\<open>re.search\<close>, \<^verbatim>\<open>re.match\<close> and \<^verbatim>\<open>re.findall\<close>. A text is the list of its code points;
  \<open>cps\<close> gives the text of an ASCII literal.
\<close>

type_synonym ustr = "int list"

definition cps :: "string \<Rightarrow> ustr" where
  "cps s = map of_char s"

text \<open>
  The code points of the digit zero of every block of decimal digits (category Nd) of the
  Unicode database of Python 3.11, version 14.0: the ten digits of a block follow each
  other. \<^verbatim>\<open>\d\<close> matches exactly these digits, and \<^verbatim>\<open>int\<close> reads them.
\<close>

definition nd_zeros :: "int list" where
  "nd_zeros = [
     0x30, 0x660, 0x6F0, 0x7C0, 0x966, 0x9E6, 0xA66, 0xAE6,
     0xB66, 0xBE6, 0xC66, 0xCE6, 0xD66, 0xDE6, 0xE50, 0xED0,
     0xF20, 0x1040, 0x1090, 0x17E0, 0x1810, 0x1946, 0x19D0, 0x1A80,
     0x1A90, 0x1B50, 0x1BB0, 0x1C40, 0x1C50, 0xA620, 0xA8D0, 0xA900,
     0xA9D0, 0xA9F0, 0xAA50, 0xABF0, 0xFF10, 0x104A0, 0x10D30, 0x11066,
     0x110F0, 0x11136, 0x111D0, 0x112F0, 0x11450, 0x114D0, 0x11650, 0x116C0,
     0x11730, 0x118E0, 0x11950, 0x11C50, 0x11D50, 0x11DA0, 0x16A60, 0x16AC0,
     0x16B50, 0x1D7CE, 0x1D7D8, 0x1D7E2, 0x1D7EC, 0x1D7F6, 0x1E140, 0x1E2F0,
     0x1E950, 0x1FBF0]"

definition digit_zero :: "int \<Rightarrow> int option" where
  "digit_zero c = find (\<lambda>z. z \<le> c \<and> c < z + 10) nd_zeros"

definition is_digit :: "int \<Rightarrow> bool" where
  "is_digit c = (digit_zero c \<noteq> None)"

definition digit_val :: "int \<Rightarrow> int" where
  "digit_val c = (case digit_zero c of Some z \<Rightarrow> c - z | None \<Rightarrow> 0)"

text \<open>The code points \<^verbatim>\<open>\s\<close> matches in a \<^verbatim>\<open>str\<close> pattern.\<close>

definition space_cps :: "int list" where
  "space_cps = [
     0x9, 0xA, 0xB, 0xC, 0xD, 0x1C, 0x1D, 0x1E,
     0x1F, 0x20, 0x85, 0xA0, 0x1680, 0x2000, 0x2001, 0x2002,
     0x2003, 0x2004, 0x2005, 0x2006, 0x2007, 0x2008, 0x2009, 0x200A,
     0x2028, 0x2029, 0x202F, 0x205F, 0x3000]"

definition is_space :: "int \<Rightarrow> bool" where
  "is_space c = (c \<in> set space_cps)"

text \<open>
  The character classes of the patterns of the source: \<^verbatim>\<open>\d\<close>, \<^verbatim>\<open>\s\<close>, \<^verbatim>\<open>[^\s]\<close>, \<^verbatim>\<open>[0-9.]\<close>,
  \<^verbatim>\<open>[^\s(]\<close>, \<^verbatim>\<open>[^\]]\<close> and \<^verbatim>\<open>.\<close> (anything but a newline).
\<close>

datatype cls = Digit | Space | NotSpace | DigitOrDot | NotSpaceOrParen | NotCloseBracket
  | AnyButNewline

fun cls_match :: "cls \<Rightarrow> int \<Rightarrow> bool" where
  "cls_match Digit c = is_digit c"
| "cls_match Space c = is_space c"
| "cls_match NotSpace c = (\<not> is_space c)"
| "cls_match DigitOrDot c = ((48 \<le> c \<and> c \<le> 57) \<or> c = 46)"
| "cls_match NotSpaceOrParen c = (\<not> is_space c \<and> c \<noteq> 40)"
| "cls_match NotCloseBracket c = (c \<noteq> 93)"
| "cls_match AnyButNewline c = (c \<noteq> 10)"

text \<open>
  A pattern is a sequence of items: an ASCII literal, an ASCII literal matched without
  regard to case (\<^verbatim>\<open>re.IGNORECASE\<close>), a greedy repetition of a class at least \<open>n\<close> times
  (\<^verbatim>\<open>*\<close> is \<open>n = 0\<close>, \<^verbatim>\<open>+\<close> is \<open>n = 1\<close>) that is a capturing group or not, and an
  alternative of two items.
\<close>

datatype item = Lit string | LitI string | Rep cls nat bool | Alt item item

text \<open>
  The lower case of an ASCII letter; a code point matches a pattern letter without regard
  to case when it is the letter in either case, or U+017F for s, U+212A for k, U+0130 or
  U+0131 for i.
\<close>

definition lower_ascii :: "int \<Rightarrow> int" where
  "lower_ascii c = (if 65 \<le> c \<and> c \<le> 90 then c + 32 else c)"

definition ci_match :: "int \<Rightarrow> int \<Rightarrow> bool" where
  "ci_match p c =
     (lower_ascii c = lower_ascii p
      \<or> (lower_ascii p = 115 \<and> c = 0x17F)
      \<or> (lower_ascii p = 107 \<and> c = 0x212A)
      \<or> (lower_ascii p = 105 \<and> (c = 0x130 \<or> c = 0x131)))"

text \<open>
  \<^verbatim>\<open>s.lower()\<close>, as far as a search for ASCII text in it can tell: the letters A to Z
  become a to z, U+0130 becomes i followed by U+0307, U+212A becomes k; every other code
  point becomes code points that are not ASCII and is kept as it is.
\<close>

fun lower :: "ustr \<Rightarrow> ustr" where
  "lower [] = []"
| "lower (c # cs) =
     (if c = 0x130 then 105 # 0x307 # lower cs
      else if c = 0x212A then 107 # lower cs
      else lower_ascii c # lower cs)"

fun isz :: "item \<Rightarrow> nat" where
  "isz (Alt a b) = Suc (isz a + isz b)"
| "isz _ = 1"

text \<open>
  Matching a pattern at the start of a text, by backtracking as Python does: a repetition
  first takes one more code point and gives it back when the rest of the pattern fails,
  the left alternative is tried before the right one. The result is the captured groups in
  order and the text left after the match.
\<close>

function match_here :: "item list \<Rightarrow> ustr \<Rightarrow> (ustr list \<times> ustr) option" where
  "match_here [] s = Some ([], s)"
| "match_here (Lit l # ps) s =
     (if startswith (cps l) s then match_here ps (drop (length l) s) else None)"
| "match_here (LitI l # ps) s =
     (if length l \<le> length s \<and> list_all2 ci_match (cps l) (take (length l) s)
      then match_here ps (drop (length l) s) else None)"
| "match_here (Alt a b # ps) s =
     (case match_here (a # ps) s of
        Some r \<Rightarrow> Some r
      | None \<Rightarrow> match_here (b # ps) s)"
| "match_here (Rep c n cap # ps) [] =
     (if n = 0
      then (case match_here ps [] of
              Some (caps, rest) \<Rightarrow> Some (if cap then [] # caps else caps, rest)
            | None \<Rightarrow> None)
      else None)"
| "match_here (Rep c n cap # ps) (x # xs) =
     (case (if cls_match c x then match_here (Rep c (n - 1) cap # ps) xs else None) of
        Some (caps, rest) \<Rightarrow>
          Some (if cap then (case caps of g # gs \<Rightarrow> (x # g) # gs | [] \<Rightarrow> [[x]]) else caps, rest)
      | None \<Rightarrow>
          if n = 0
          then (case match_here ps (x # xs) of
                  Some (caps, rest) \<Rightarrow> Some (if cap then [] # caps else caps, rest)
                | None \<Rightarrow> None)
          else None)"
  by pat_completeness auto
termination
  by (relation "measures [\<lambda>(ps, s). sum_list (map isz ps), \<lambda>(ps, s). length s]") auto

text \<open>\<^verbatim>\<open>re.search\<close>: the match at the leftmost position that has one.\<close>

fun re_search :: "item list \<Rightarrow> ustr \<Rightarrow> (ustr list \<times> ustr) option" where
  "re_search p [] = match_here p []"
| "re_search p (x # xs) =
     (case match_here p (x # xs) of
        Some r \<Rightarrow> Some r
      | None \<Rightarrow> re_search p xs)"

text \<open>
  \<^verbatim>\<open>len(re.findall(p, s))\<close>: the matches are counted from left to right, each search
  starting where the match before ended (one code point further after an empty match);
  \<open>k\<close> is the number of code points still covered by the last match.
\<close>

fun count_from :: "item list \<Rightarrow> nat \<Rightarrow> ustr \<Rightarrow> nat" where
  "count_from p k [] = (if k = 0 \<and> match_here p [] \<noteq> None then 1 else 0)"
| "count_from p (Suc k) (x # xs) = count_from p k xs"
| "count_from p 0 (x # xs) =
     (case match_here p (x # xs) of
        None \<Rightarrow> count_from p 0 xs
      | Some (caps, rest) \<Rightarrow> Suc (count_from p (length xs - length rest) xs))"

definition re_count :: "item list \<Rightarrow> ustr \<Rightarrow> nat" where
  "re_count p s = count_from p 0 s"

text \<open>The first captured group of a match, \<^verbatim>\<open>m.group(1) if m else None\<close>.\<close>

definition group1 :: "(ustr list \<times> ustr) option \<Rightarrow> ustr option" where
  "group1 m = (case m of Some (g # gs, rest) \<Rightarrow> Some g | _ \<Rightarrow> None)"

text \<open>
  \<^verbatim>\<open>int(s)\<close> on a run of decimal digits: Python 3.11 raises \<^verbatim>\<open>ValueError\<close> when the run is
  longer than 4300 digits (\<^verbatim>\<open>sys.int_max_str_digits\<close>), leading zeros counted.
\<close>

definition py_int :: "ustr \<Rightarrow> py_error + int" where
  "py_int s =
     (if int (length s) > 4300 then Inl ValueError
      else Inr (foldl (\<lambda>n c. 10 * n + digit_val c) 0 s))"

text \<open>
  A float is a double: a finite one is kept by the rational it is, and a decimal too large
  for a double becomes infinity. \<open>double_of a b\<close> rounds the fraction \<open>a / b\<close>, not negative,
  to the nearest double, a tie to the even mantissa: the mantissa has 53 bits, the least
  exponent of a normal double is -1022 and the doubles end below \<open>2 ^ 1024\<close>.
\<close>

datatype pyfloat = Finite rat | Infinity

function bit_length :: "int \<Rightarrow> int" where
  "bit_length n = (if n \<le> 0 then 0 else 1 + bit_length (n div 2))"
  by pat_completeness auto
termination
  by (relation "measure nat") auto

declare bit_length.simps [simp del]

definition pow2 :: "int \<Rightarrow> rat" where
  "pow2 e = (if e \<ge> 0 then of_int (2 ^ nat e) else 1 / of_int (2 ^ nat (- e)))"

text \<open>The exponent \<open>e\<close> with \<open>2 ^ e \<le> a / b < 2 ^ (e + 1)\<close>.\<close>

definition floor_log2 :: "int \<Rightarrow> int \<Rightarrow> int" where
  "floor_log2 a b =
     (let e0 = bit_length a - bit_length b
      in if b * 2 ^ nat e0 \<le> a * 2 ^ nat (- e0) then e0 else e0 - 1)"

text \<open>The integer nearest to \<open>p / d\<close>, the even one of two that are equally near.\<close>

definition round_half_even :: "int \<Rightarrow> int \<Rightarrow> int" where
  "round_half_even p d =
     (let f = p div d; m = p mod d
      in if 2 * m < d then f else if 2 * m > d then f + 1 else if even f then f else f + 1)"

definition double_of :: "int \<Rightarrow> int \<Rightarrow> pyfloat" where
  "double_of a b =
     (if a = 0 then Finite 0
      else (let k = max (floor_log2 a b) (- 1022) - 52;
                r = round_half_even (a * 2 ^ nat (- k)) (b * 2 ^ nat k)
            in if of_int r * pow2 k \<ge> pow2 1024 then Infinity else Finite (of_int r * pow2 k)))"

text \<open>
  \<^verbatim>\<open>float(s)\<close> on a run of ASCII digits and dots: \<^verbatim>\<open>ValueError\<close> unless there is a digit and
  at most one dot, else the double nearest to the decimal written.
\<close>

definition decimal_digits :: "ustr \<Rightarrow> int" where
  "decimal_digits s = foldl (\<lambda>n c. 10 * n + (c - 48)) 0 s"

definition py_float :: "ustr \<Rightarrow> py_error + pyfloat" where
  "py_float s =
     (let ip = takeWhile (\<lambda>c. c \<noteq> 46) s; rest = dropWhile (\<lambda>c. c \<noteq> 46) s
      in case rest of
           [] \<Rightarrow> if ip = [] then Inl ValueError else Inr (double_of (decimal_digits ip) 1)
         | dot # fp \<Rightarrow>
             if 46 \<in> set fp \<or> (ip = [] \<and> fp = []) then Inl ValueError
             else Inr (double_of (decimal_digits ip * 10 ^ length fp + decimal_digits fp)
                         (10 ^ length fp)))"

text \<open>\<^verbatim>\<open>content.split('\n')\<close>.\<close>

fun split_nl :: "ustr \<Rightarrow> ustr list" where
  "split_nl [] = [[]]"
| "split_nl (c # cs) =
     (if c = 10 then [] # split_nl cs
      else (case split_nl cs of l # ls \<Rightarrow> (c # l) # ls | [] \<Rightarrow> [[c]]))"

section \<open>The log parsers\<close>

text \<open>The patterns of \<^verbatim>\<open>get_da_movements\<close> and \<^verbatim>\<open>get_system_state\<close>, each under the regular
  expression it is in the source.\<close>

definition queue_size_re :: "item list" where
  \<comment> \<open>\<^verbatim>\<open>Queue size:\s*(\d+)\<close>\<close>
  "queue_size_re = [Lit ''Queue size:'', Rep Space 0 False, Rep Digit 1 True]"

definition route_from_queue_re :: "item list" where
  \<comment> \<open>\<^verbatim>\<open>route from queue:\s*([^\s]+)\<close>\<close>
  "route_from_queue_re = [Lit ''route from queue:'', Rep Space 0 False, Rep NotSpace 1 True]"

definition remaining_re :: "item list" where
  \<comment> \<open>\<^verbatim>\<open>Remaining routes in queue:\s*(\d+)\<close>\<close>
  "remaining_re = [Lit ''Remaining routes in queue:'', Rep Space 0 False, Rep Digit 1 True]"

definition route_id_re :: "item list" where
  \<comment> \<open>\<^verbatim>\<open>Route\s+(\d+|[^\s]+)\<close>\<close>
  "route_id_re = [Lit ''Route'', Rep Space 1 False, Alt (Rep Digit 1 True) (Rep NotSpace 1 True)]"

definition timestamp_re :: "item list" where
  \<comment> \<open>\<^verbatim>\<open>\[([^\]]+)\]\<close>\<close>
  "timestamp_re = [Lit ''['', Rep NotCloseBracket 1 True, Lit '']'']"

definition position_re :: "item list" where
  \<comment> \<open>\<^verbatim>\<open>\(([0-9.]+),\s*([0-9.]+)\)\<close>\<close>
  "position_re = [Lit ''('', Rep DigitOrDot 1 True, Lit '','', Rep Space 0 False,
     Rep DigitOrDot 1 True, Lit '')'']"

definition customer_re :: "item list" where
  \<comment> \<open>\<^verbatim>\<open>customer\s+([^\s(]+)\<close> with \<^verbatim>\<open>re.IGNORECASE\<close>\<close>
  "customer_re = [LitI ''customer'', Rep Space 1 False, Rep NotSpaceOrParen 1 True]"

definition completed_re :: "item list" where
  \<comment> \<open>\<^verbatim>\<open>RETURNED to depot.*Route.*completed\<close>\<close>
  "completed_re = [Lit ''RETURNED to depot'', Rep AnyButNewline 0 False, Lit ''Route'',
     Rep AnyButNewline 0 False, Lit ''completed'']"

definition processing_re :: "item list" where
  \<comment> \<open>\<^verbatim>\<open>Processing.*route from queue:\s*([^\s]+)\<close>\<close>
  "processing_re = [Lit ''Processing'', Rep AnyButNewline 0 False, Lit ''route from queue:'',
     Rep Space 0 False, Rep NotSpace 1 True]"

definition unserved_re :: "item list" where
  \<comment> \<open>\<^verbatim>\<open>Unserved customers:\s*(\d+)\<close>\<close>
  "unserved_re = [Lit ''Unserved customers:'', Rep Space 0 False, Rep Digit 1 True]"

definition position_keywords :: "string list" where
  "position_keywords = [''ARRIVED at customer'', ''RETURNED to depot'', ''Moving to'',
     ''Starting route'', ''at ('', ''Position'']"

record movement =
  mv_timestamp :: "ustr option"
  mv_x :: pyfloat
  mv_y :: pyfloat
  event :: string
  customer :: "ustr option"

record route_entry =
  entry_route_id :: ustr
  entry_status :: string
  entry_timestamp :: "ustr option"

text \<open>The variables of \<^verbatim>\<open>get_da_movements\<close> for one log file.\<close>

record da_scan =
  positions :: "movement list"
  route_info :: "route_entry list"
  queue_size :: int
  current_route :: "ustr option"

definition da_scan0 :: da_scan where
  "da_scan0 = \<lparr>positions = [], route_info = [], queue_size = 0, current_route = None\<rparr>"

text \<open>
  The queue tracking of the loop body. \<^verbatim>\<open>int\<close> can raise; \<open>Inl\<close> is the exception with the
  variables as they are when it is raised, \<open>Inr\<close> the variables after the statements.
\<close>

definition track_queue :: "da_scan \<Rightarrow> ustr \<Rightarrow> (py_error \<times> da_scan) + da_scan" where
  "track_queue st line =
     (case (if is_substr (cps ''added to queue'') (lower line)
            then (case group1 (re_search queue_size_re line) of
                    Some g \<Rightarrow> (case py_int g of
                                 Inl e \<Rightarrow> Inl (e, st)
                               | Inr n \<Rightarrow> Inr (st\<lparr>queue_size := n\<rparr>))
                  | None \<Rightarrow> Inr st)
            else Inr st) of
        Inl r \<Rightarrow> Inl r
      | Inr st1 \<Rightarrow>
          if is_substr (cps ''Processing route from queue'') line
          then (let st2 = (case group1 (re_search route_from_queue_re line) of
                             Some g \<Rightarrow> st1\<lparr>current_route := Some g\<rparr> | None \<Rightarrow> st1)
                in case group1 (re_search remaining_re line) of
                     Some g \<Rightarrow> (case py_int g of
                                  Inl e \<Rightarrow> Inl (e, st2)
                                | Inr n \<Rightarrow> Inr (st2\<lparr>queue_size := n\<rparr>))
                   | None \<Rightarrow> Inr st2)
          else Inr st1)"

text \<open>The route assignments of the loop body; nothing in them raises.\<close>

definition track_routes :: "da_scan \<Rightarrow> ustr \<Rightarrow> da_scan" where
  "track_routes st line =
     (if is_substr (cps ''ROUTE_ASSIGNMENT'') line
         \<or> (is_substr (cps ''Route'') line \<and> is_substr (cps ''ACCEPTED'') line)
      then (case group1 (re_search route_id_re line) of
              Some g \<Rightarrow> st\<lparr>route_info := route_info st @
                 [\<lparr>entry_route_id = g,
                   entry_status = (if is_substr (cps ''added to queue'') (lower line)
                                   then ''queued'' else ''executing''),
                   entry_timestamp = group1 (match_here timestamp_re line)\<rparr>]\<rparr>
            | None \<Rightarrow> st)
      else st)"

text \<open>
  The position update of the loop body: the movement a line gives, if any. \<^verbatim>\<open>float\<close>
  raises \<^verbatim>\<open>ValueError\<close> on a captured coordinate that is not a number.
\<close>

definition line_position :: "ustr \<Rightarrow> py_error + movement option" where
  "line_position line =
     (if \<exists>keyword \<in> set position_keywords. is_substr (cps keyword) line
      then (case re_search position_re line of
              Some ([g1, g2], rest) \<Rightarrow>
                (case py_float g1 of
                   Inl e \<Rightarrow> Inl e
                 | Inr x \<Rightarrow>
                    (case py_float g2 of
                       Inl e \<Rightarrow> Inl e
                     | Inr y \<Rightarrow>
                        Inr (Some
                          \<lparr>mv_timestamp = group1 (match_here timestamp_re line),
                           mv_x = x, mv_y = y,
                           event = (if is_substr (cps ''ARRIVED at customer'') line then ''arrival''
                                    else if is_substr (cps ''RETURNED to depot'') line then ''depot''
                                    else if is_substr (cps ''Starting route'') line then ''route_start''
                                    else ''moving''),
                           customer = (if is_substr (cps ''ARRIVED at customer'') line
                                       then group1 (re_search customer_re line) else None)\<rparr>)))
            | _ \<Rightarrow> Inr None)
      else Inr None)"

text \<open>The loop body on one line.\<close>

definition process_line :: "da_scan \<Rightarrow> ustr \<Rightarrow> (py_error \<times> da_scan) + da_scan" where
  "process_line st line =
     (case track_queue st line of
        Inl r \<Rightarrow> Inl r
      | Inr st1 \<Rightarrow>
          (let st2 = track_routes st1 line
           in case line_position line of
                Inl e \<Rightarrow> Inl (e, st2)
              | Inr None \<Rightarrow> Inr st2
              | Inr (Some m) \<Rightarrow> Inr (st2\<lparr>positions := positions st2 @ [m]\<rparr>)))"

text \<open>
  The loop over the lines, inside \<^verbatim>\<open>try\<close>: the exception of a line ends the loop, and the
  \<^verbatim>\<open>except\<close> clause, which only prints, keeps what the variables held when it was raised.
\<close>

fun scan_lines :: "da_scan \<Rightarrow> ustr list \<Rightarrow> da_scan" where
  "scan_lines st [] = st"
| "scan_lines st (line # lines) =
     (case process_line st line of
        Inl (e, st') \<Rightarrow> st'
      | Inr st' \<Rightarrow> scan_lines st' lines)"

text \<open>What \<^verbatim>\<open>get_da_movements\<close> makes of the content of one dispatcher log.\<close>

definition get_da_movements :: "ustr \<Rightarrow> da_scan" where
  "get_da_movements content = scan_lines da_scan0 (split_nl content)"

text \<open>
  The entry \<^verbatim>\<open>get_system_state\<close> makes of the content of one dispatcher log. The entry is
  filled field by field inside \<^verbatim>\<open>try\<close>; when \<^verbatim>\<open>int\<close> raises, the fields not yet assigned keep
  their initial values.
\<close>

record da_state =
  ds_status :: string
  ds_queue_size :: int
  ds_current_route :: "ustr option"
  routes_completed :: nat

definition da_state_rest :: "ustr \<Rightarrow> nat \<Rightarrow> int \<Rightarrow> da_state" where
  "da_state_rest content completed qs =
     (case group1 (re_search processing_re content) of
        Some g \<Rightarrow> \<lparr>ds_status = ''executing'', ds_queue_size = qs,
                    ds_current_route = Some g, routes_completed = completed\<rparr>
      | None \<Rightarrow>
          \<lparr>ds_status = (if qs > 0 then ''queued''
                        else if cps ''RETURNED to depot''
                                  \<in> set (drop (length (split_nl content) - 50) (split_nl content))
                        then ''idle'' else ''idle''),
           ds_queue_size = qs, ds_current_route = None, routes_completed = completed\<rparr>)"

definition get_system_state_da :: "ustr \<Rightarrow> da_state" where
  "get_system_state_da content =
     (let completed = re_count completed_re content
      in case group1 (re_search queue_size_re content) of
           Some g \<Rightarrow>
             (case py_int g of
                Inl e \<Rightarrow> \<lparr>ds_status = ''idle'', ds_queue_size = 0, ds_current_route = None,
                           routes_completed = completed\<rparr>
              | Inr qs \<Rightarrow> da_state_rest content completed qs)
         | None \<Rightarrow> da_state_rest content completed 0)"

text \<open>The entry \<^verbatim>\<open>get_system_state\<close> makes of the content of the route manager's log, filled
  in the same way.\<close>

record mra_state =
  mra_status :: string
  vehicles_queried :: nat
  routes_assigned :: nat
  unserved_customers :: int

definition mra_status_of :: "ustr \<Rightarrow> string" where
  "mra_status_of content =
     (if is_substr (cps ''Solution found'') content then ''solved''
      else if is_substr (cps ''Solving'') content then ''solving'' else ''unknown'')"

definition get_system_state_mra :: "ustr \<Rightarrow> mra_state" where
  "get_system_state_mra content =
     (let queried = re_count [Lit ''Querying DA:''] content;
          assigned = re_count [Lit ''Assigning route''] content
      in case group1 (re_search unserved_re content) of
           Some g \<Rightarrow>
             (case py_int g of
                Inl e \<Rightarrow> \<lparr>mra_status = ''unknown'', vehicles_queried = queried,
                           routes_assigned = assigned, unserved_customers = 0\<rparr>
              | Inr n \<Rightarrow> \<lparr>mra_status = mra_status_of content, vehicles_queried = queried,
                           routes_assigned = assigned, unserved_customers = n\<rparr>)
         | None \<Rightarrow> \<lparr>mra_status = mra_status_of content, vehicles_queried = queried,
                      routes_assigned = assigned, unserved_customers = 0\<rparr>)"

text \<open>Example log lines and logs.\<close>

definition arrival_line :: ustr where
  "arrival_line = cps ''[2024-01-01T10:00:00] DA1 ARRIVED at customer C5 at (3.5, 7.2)''"

definition arrival_event :: movement where
  "arrival_event = \<lparr>mv_timestamp = Some (cps ''2024-01-01T10:00:00''), mv_x = Finite (7 / 2),
     mv_y = Finite (8106479329266893 / 1125899906842624), event = ''arrival'',
     customer = Some (cps ''C5'')\<rparr>"

definition malformed_line :: ustr where
  "malformed_line = cps ''[2024-01-01T09:59:00] DA1 ARRIVED at customer C4 at (3.5; 7.2)''"

definition two_dots_line :: ustr where
  "two_dots_line = cps ''[2024-01-01T09:59:00] DA1 ARRIVED at customer C4 at (3.5.1, 7.2)''"

definition da_log :: ustr where
  "da_log = cps ''Route R1 added to queue. Queue size: 1'' @ [10]
     @ cps ''Processing route from queue: R1'' @ [10]
     @ cps ''Processing route from queue: R2'' @ [10]
     @ cps ''Route R3 added to queue. Queue size: 2''"

definition mra_log :: ustr where
  "mra_log = cps ''Unserved customers: 3'' @ [10] @ cps ''Unserved customers: 0''"

section \<open>Properties of the coordination store\<close>

subsection \<open>Claiming the next request\<close>

lemma claim_scan_none:
  "\<forall>(k, r) \<in> set reqs. status r \<noteq> Pending \<Longrightarrow> claim_scan reqs = (reqs, None)"
  by (induction reqs) auto

lemma claim_scan_first:
  "\<forall>(k, r) \<in> set pre. status r \<noteq> Pending \<Longrightarrow> status r = Pending \<Longrightarrow>
   claim_scan (pre @ (k, r) # post) = (pre @ (k, r\<lparr>status := Processing\<rparr>) # post, Some (k, data r))"
  by (induction pre) auto

text \<open>
  C2. In every state of the ledger that splits as \<open>pre @ (k, r) # post\<close> with \<open>r\<close> pending
  and nothing pending in \<open>pre\<close>, \<^verbatim>\<open>get_pending_request\<close> returns \<open>k\<close> with the payload of
  \<open>r\<close> and the only change to the store is that \<open>r\<close> is now processing; the poll handler
  answers 200 with them, the identifier and the payload being what a submission leaves in
  the ledger (not empty, not falsy). When nothing is pending, \<^verbatim>\<open>get_pending_request\<close> returns
  nothing, the handler answers the empty 204 response, which is no error response, and the
  store is unchanged.
\<close>

theorem claim_next_oldest_pending:
  "(\<forall>pre k r post.
      requests s = pre @ (k, r) # post \<and> status r = Pending
      \<and> (\<forall>(k', r') \<in> set pre. status r' \<noteq> Pending)
      \<longrightarrow> get_pending_request s =
            (s\<lparr>requests := pre @ (k, r\<lparr>status := Processing\<rparr>) # post\<rparr>, Some (k, data r))
          \<and> (k \<noteq> [] \<and> truthy (data r) \<longrightarrow>
               poll_request s ''poll'' =
                 (s\<lparr>requests := pre @ (k, r\<lparr>status := Processing\<rparr>) # post\<rparr>,
                  work_response k (data r))))
   \<and> ((\<forall>(k, r) \<in> set (requests s). status r \<noteq> Pending)
        \<longrightarrow> get_pending_request s = (s, None)
            \<and> poll_request s ''poll'' = (s, EmptyResp 204))"
proof (intro conjI allI impI)
  fix pre k r post
  assume h: "requests s = pre @ (k, r) # post \<and> status r = Pending
            \<and> (\<forall>(k', r') \<in> set pre. status r' \<noteq> Pending)"
  then have cs: "claim_scan (requests s) =
      (pre @ (k, r\<lparr>status := Processing\<rparr>) # post, Some (k, data r))"
    using claim_scan_first[of pre r k post] by simp
  then show g: "get_pending_request s =
      (s\<lparr>requests := pre @ (k, r\<lparr>status := Processing\<rparr>) # post\<rparr>, Some (k, data r))"
    by (simp add: get_pending_request_def)
  assume "k \<noteq> [] \<and> truthy (data r)"
  then show "poll_request s ''poll'' =
                  (s\<lparr>requests := pre @ (k, r\<lparr>status := Processing\<rparr>) # post\<rparr>,
                   work_response k (data r))"
    using g by (simp add: poll_request_def work_response_def)
next
  assume "\<forall>(k, r) \<in> set (requests s). status r \<noteq> Pending"
  then have "claim_scan (requests s) = (requests s, None)"
    by (rule claim_scan_none)
  then show g: "get_pending_request s = (s, None)"
    by (simp add: get_pending_request_def)
  then show "poll_request s ''poll'' = (s, EmptyResp 204)"
    by (simp add: poll_request_def)
qed

theorem claim_next_oldest_pending_witness:
  "submitted_ok (requests ledger3) \<and>
   poll_request ledger3 ''poll'' =
     (ledger3\<lparr>requests :=
        [(''a'', \<lparr>data = payload1, status = Processing, timestamp = 1\<rparr>),
         (''b'', \<lparr>data = payload1, status = Processing, timestamp = 2\<rparr>),
         (''c'', \<lparr>data = payload1, status = Pending, timestamp = 3\<rparr>)]\<rparr>,
      work_response ''b'' payload1)
   \<and> poll_request init_server ''poll'' = (init_server, EmptyResp 204)"
proof -
  have ok: "submitted_ok (requests ledger3)"
    by (simp add: submitted_ok_def ledger3_def payload1_def)
  have t: "''b'' \<noteq> [] \<and> truthy (data \<lparr>data = payload1, status = Pending, timestamp = 2\<rparr>)"
    by (simp add: payload1_def)
  have a: "poll_request ledger3 ''poll'' =
     (ledger3\<lparr>requests :=
        [(''a'', \<lparr>data = payload1, status = Processing, timestamp = 1\<rparr>)] @
         (''b'', \<lparr>data = payload1, status = Pending, timestamp = 2\<rparr>\<lparr>status := Processing\<rparr>) #
         [(''c'', \<lparr>data = payload1, status = Pending, timestamp = 3\<rparr>)]\<rparr>,
      work_response ''b'' (data \<lparr>data = payload1, status = Pending, timestamp = 2\<rparr>))"
    using claim_next_oldest_pending[of ledger3, THEN conjunct1, rule_format,
        of "[(''a'', \<lparr>data = payload1, status = Processing, timestamp = 1\<rparr>)]" "''b''"
           "\<lparr>data = payload1, status = Pending, timestamp = 2\<rparr>"
           "[(''c'', \<lparr>data = payload1, status = Pending, timestamp = 3\<rparr>)]",
        THEN conjunct2, rule_format, OF _ t]
    by (simp add: ledger3_def)
  have b: "poll_request init_server ''poll'' = (init_server, EmptyResp 204)"
    using claim_next_oldest_pending[of init_server, THEN conjunct2]
    by (simp add: init_server_def)
  show ?thesis using ok a b by simp
qed

subsection \<open>What a call does to the ledger\<close>

lemma map_fst_dict_update: "map fst (dict_update k f kvs) = map fst kvs"
  by (induction kvs) auto

lemma map_fst_claim_scan: "map fst (fst (claim_scan reqs)) = map fst reqs"
  by (induction reqs) (auto split: prod.splits)

lemma dict_set_fresh: "k \<notin> keys kvs \<Longrightarrow> dict_set k v kvs = kvs @ [(k, v)]"
  by (induction kvs) (auto simp: keys_def)

lemma evolved_refl: "list_all2 evolved xs xs"
  by (simp add: list_all2_refl evolved_def step_ok_def)

lemma evolved_claim_scan: "list_all2 evolved reqs (fst (claim_scan reqs))"
  by (induction reqs) (auto simp: evolved_def step_ok_def evolved_refl list_all2_refl split: prod.splits)

lemma evolved_dict_update:
  "list_all2 evolved reqs (dict_update k (\<lambda>r. r\<lparr>status := Completed\<rparr>) reqs)"
proof (induction reqs)
  case Nil
  show ?case by simp
next
  case (Cons a reqs)
  obtain k' r where a: "a = (k', r)" by (cases a)
  have "step_ok (status r) Completed"
    by (cases "status r") (simp_all add: step_ok_def)
  then have e1: "evolved (k', r) (k', r\<lparr>status := Completed\<rparr>)"
    by (simp add: evolved_def)
  have e2: "evolved (k', r) (k', r)"
    by (simp add: evolved_def step_ok_def)
  show ?case
  proof (cases "k' = k")
    case True
    then show ?thesis using e1 evolved_refl[of reqs] by (simp add: a)
  next
    case False
    then show ?thesis using e2 Cons.IH by (simp add: a)
  qed
qed

lemma requests_report_solution:
  "requests (fst (report_solution s b now)) = requests s
   \<or> (\<exists>rid. requests (fst (report_solution s b now)) =
         dict_update rid (\<lambda>r. r\<lparr>status := Completed\<rparr>) (requests s))"
  by (auto simp: report_solution_def add_solution_def split: sum.splits json.splits)

lemma requests_new_request:
  "requests (fst (new_request s p u now)) = requests s
   \<or> (truthy p \<and> requests (fst (new_request s p u now)) =
         dict_set u \<lparr>data = p, status = Pending, timestamp = now\<rparr> (requests s))"
  by (auto simp: new_request_def add_request_def split: sum.splits json.splits option.splits)

lemma requests_poll_request:
  "requests (fst (poll_request s a)) = requests s
   \<or> requests (fst (poll_request s a)) = fst (claim_scan (requests s))"
  by (auto simp: poll_request_def get_pending_request_def split: prod.splits option.splits)

lemma requests_update_vehicle_position:
  "requests (fst (update_vehicle_position s b now)) = requests s"
  by (auto simp: update_vehicle_position_def Let_def split: json.splits)

lemma requests_confirm_vehicles:
  "requests (fst (confirm_vehicles s b now)) = requests s"
  by (auto simp: confirm_vehicles_def Let_def split: json.splits sum.splits)

lemma requests_poll_vehicle_config:
  "requests (fst (poll_vehicle_config s)) = requests s"
  by (auto simp: poll_vehicle_config_def split: option.splits)

lemma handle_requests:
  assumes "fresh_uuid s c"
  shows "requests (fst (handle s c)) = requests s
    \<or> requests (fst (handle s c)) = fst (claim_scan (requests s))
    \<or> (\<exists>rid. requests (fst (handle s c)) =
           dict_update rid (\<lambda>r. r\<lparr>status := Completed\<rparr>) (requests s))
    \<or> (\<exists>u v. u \<noteq> [] \<and> u \<notin> keys (requests s) \<and> truthy (data v) \<and> status v = Pending
          \<and> requests (fst (handle s c)) = requests s @ [(u, v)])"
proof (cases c)
  case (PollRequest a)
  then show ?thesis using requests_poll_request[of s a] by auto
next
  case (SubmitSolution action body uuid now)
  show ?thesis
  proof (cases "action = Some ''response''")
    case True
    then show ?thesis using SubmitSolution requests_report_solution[of s body now]
      by (auto simp: submit_solution_def)
  next
    case False
    then have f: "uuid \<noteq> [] \<and> uuid \<notin> keys (requests s)"
      using assms SubmitSolution by simp
    from requests_new_request[of s body uuid now] show ?thesis
    proof
      assume "requests (fst (new_request s body uuid now)) = requests s"
      then show ?thesis using SubmitSolution False by (simp add: submit_solution_def)
    next
      assume a: "truthy body \<and> requests (fst (new_request s body uuid now)) =
         dict_set uuid \<lparr>data = body, status = Pending, timestamp = now\<rparr> (requests s)"
      then have "requests (fst (handle s c)) =
          requests s @ [(uuid, \<lparr>data = body, status = Pending, timestamp = now\<rparr>)]"
        using SubmitSolution False f by (simp add: submit_solution_def dict_set_fresh)
      then show ?thesis using f a by auto
    qed
  qed
next
  case (UpdateVehiclePosition b now)
  then show ?thesis by (simp add: requests_update_vehicle_position)
next
  case (ConfirmVehicles b now)
  then show ?thesis by (simp add: requests_confirm_vehicles)
next
  case PollVehicleConfig
  then show ?thesis by (simp add: requests_poll_vehicle_config)
qed

lemma handle_evolved:
  assumes "fresh_uuid s c"
  shows "\<exists>extra. list_all2 evolved (requests s) (take (length (requests s)) (requests (fst (handle s c))))
     \<and> length (requests s) \<le> length (requests (fst (handle s c)))"
  using handle_requests[OF assms]
proof (elim disjE exE conjE)
  assume "requests (fst (handle s c)) = requests s"
  then show ?thesis by (simp add: evolved_refl)
next
  assume h: "requests (fst (handle s c)) = fst (claim_scan (requests s))"
  have "length (fst (claim_scan (requests s))) = length (requests s)"
    using evolved_claim_scan[of "requests s"] by (simp add: list_all2_lengthD)
  then show ?thesis using h evolved_claim_scan[of "requests s"] by simp
next
  fix rid
  assume h: "requests (fst (handle s c)) =
           dict_update rid (\<lambda>r. r\<lparr>status := Completed\<rparr>) (requests s)"
  have "length (dict_update rid (\<lambda>r. r\<lparr>status := Completed\<rparr>) (requests s)) = length (requests s)"
    using evolved_dict_update[of "requests s" rid] by (simp add: list_all2_lengthD)
  then show ?thesis using h evolved_dict_update[of "requests s" rid] by simp
next
  fix u v
  assume "requests (fst (handle s c)) = requests s @ [(u, v)]"
  then show ?thesis by (simp add: evolved_refl)
qed

lemma handle_distinct:
  assumes "fresh_uuid s c" "distinct (map fst (requests s))"
  shows "distinct (map fst (requests (fst (handle s c))))"
  using handle_requests[OF assms(1)] assms(2)
  by (auto simp: map_fst_claim_scan map_fst_dict_update keys_def)

lemma handle_submitted_ok:
  assumes "fresh_uuid s c" "submitted_ok (requests s)"
  shows "submitted_ok (requests (fst (handle s c)))"
proof -
  have a: "submitted_ok (fst (claim_scan reqs))" if "submitted_ok reqs" for reqs
    using that by (induction reqs) (auto simp: submitted_ok_def split: prod.splits)
  have b: "submitted_ok (dict_update k (\<lambda>r. r\<lparr>status := Completed\<rparr>) reqs)" if "submitted_ok reqs" for reqs k
    using that
  proof (induction reqs)
    case Nil
    then show ?case by simp
  next
    case (Cons a reqs)
    obtain k' r where a: "a = (k', r)" by (cases a)
    from Cons.prems have t: "submitted_ok reqs" and h: "k' \<noteq> [] \<and> truthy (data r)"
      by (simp_all add: submitted_ok_def a)
    show ?case
    proof (cases "k' = k")
      case True
      then show ?thesis using t h by (simp add: a submitted_ok_def)
    next
      case False
      then show ?thesis using Cons.IH[OF t] h by (simp add: a submitted_ok_def)
    qed
  qed
  from handle_requests[OF assms(1)] show ?thesis
  proof (elim disjE exE conjE)
    assume "requests (fst (handle s c)) = requests s"
    then show ?thesis using assms(2) by simp
  next
    assume "requests (fst (handle s c)) = fst (claim_scan (requests s))"
    then show ?thesis using a[OF assms(2)] by simp
  next
    fix rid
    assume "requests (fst (handle s c)) =
           dict_update rid (\<lambda>r. r\<lparr>status := Completed\<rparr>) (requests s)"
    then show ?thesis using b[OF assms(2), of rid] by simp
  next
    fix u v
    assume "u \<noteq> []" "truthy (data v)" "requests (fst (handle s c)) = requests s @ [(u, v)]"
    then show ?thesis using assms(2) by (simp add: submitted_ok_def)
  qed
qed

lemma run_append: "run s (cs @ ds) = run (run s cs) ds"
  by (induction cs arbitrary: s) auto

lemma fresh_uuids_append:
  "fresh_uuids s (cs @ ds) = (fresh_uuids s cs \<and> fresh_uuids (run s cs) ds)"
  by (induction cs arbitrary: s) auto

lemma run_distinct:
  "fresh_uuids s cs \<Longrightarrow> distinct (map fst (requests s)) \<Longrightarrow> distinct (map fst (requests (run s cs)))"
  by (induction cs arbitrary: s) (auto simp: handle_distinct)

lemma run_submitted_ok:
  "fresh_uuids s cs \<Longrightarrow> submitted_ok (requests s) \<Longrightarrow> submitted_ok (requests (run s cs))"
  by (induction cs arbitrary: s) (auto simp: handle_submitted_ok)

subsection \<open>Status transitions and identifiers\<close>

text \<open>
  C5, as amended. Along any sequence of calls whose submissions draw new identifiers, one
  more call keeps every request of the ledger at its place under its identifier, keeps the
  identifiers distinct, and moves the status of a request only from pending to processing,
  from processing to completed or from pending to completed, if at all.
\<close>

theorem status_transitions:
  assumes "distinct (map fst (requests s))" and "fresh_uuids s (cs @ [c])"
  shows "distinct (map fst (requests (run s (cs @ [c]))))
     \<and> length (requests (run s cs)) \<le> length (requests (run s (cs @ [c])))
     \<and> (\<forall>i < length (requests (run s cs)).
          fst (requests (run s (cs @ [c])) ! i) = fst (requests (run s cs) ! i)
          \<and> step_ok (status (snd (requests (run s cs) ! i)))
                     (status (snd (requests (run s (cs @ [c])) ! i))))"
proof -
  have f: "fresh_uuid (run s cs) c"
    using assms(2) by (simp add: fresh_uuids_append)
  have r: "run s (cs @ [c]) = fst (handle (run s cs) c)"
    by (simp add: run_append)
  have d: "distinct (map fst (requests (run s (cs @ [c]))))"
    using assms by (rule run_distinct[rotated])
  from handle_evolved[OF f] have
    e: "list_all2 evolved (requests (run s cs))
          (take (length (requests (run s cs))) (requests (fst (handle (run s cs) c))))"
    and l: "length (requests (run s cs)) \<le> length (requests (fst (handle (run s cs) c)))"
    by auto
  have "\<forall>i < length (requests (run s cs)).
          evolved (requests (run s cs) ! i) (requests (fst (handle (run s cs) c)) ! i)"
    using e by (auto simp: list_all2_conv_all_nth)
  then show ?thesis using d l r by (simp add: evolved_def)
qed

lemma handle_cx_submit:
  "fst (handle init_server cx_submit) =
     init_server\<lparr>requests := [(''r1'', \<lparr>data = payload1, status = Pending, timestamp = 0\<rparr>)]\<rparr>"
  by (simp add: cx_submit_def submit_solution_def new_request_def payload1_def
      add_request_def init_server_def)

lemma run_cx_report:
  "requests (run init_server [cx_submit, cx_report]) =
     [(''r1'', \<lparr>data = payload1, status = Completed, timestamp = 0\<rparr>)]"
proof -
  have "requests (fst (handle (fst (handle init_server cx_submit)) cx_report)) =
     [(''r1'', \<lparr>data = payload1, status = Completed, timestamp = 0\<rparr>)]"
    by (simp only: handle_cx_submit)
       (simp add: cx_report_def submit_solution_def report_solution_def dict_get_def
          add_solution_def keys_def init_server_def)
  then show ?thesis by simp
qed

text \<open>
  C5 as stated fails: a solution reported for a request nobody polled takes it from
  pending to completed in one call.
\<close>

theorem status_transitions_counterexample:
  "fresh_uuids init_server [cx_submit, cx_report]
   \<and> \<not> step_claimed (status (snd (requests (run init_server [cx_submit]) ! 0)))
                     (status (snd (requests (run init_server [cx_submit, cx_report]) ! 0)))"
proof -
  have "fresh_uuids init_server [cx_submit, cx_report]"
    by (simp add: cx_submit_def cx_report_def init_server_def keys_def)
  then show ?thesis
    unfolding run_cx_report by (simp add: step_claimed_def handle_cx_submit)
qed

theorem status_transitions_witness:
  "distinct (map fst (requests init_server))
   \<and> fresh_uuids init_server ([cx_submit] @ [cx_report])
   \<and> fst (requests (run init_server ([cx_submit] @ [cx_report])) ! 0) = ''r1''
   \<and> step_ok Pending (status (snd (requests (run init_server ([cx_submit] @ [cx_report])) ! 0)))"
proof -
  have h1: "distinct (map fst (requests init_server))"
    by (simp add: init_server_def)
  have h2: "fresh_uuids init_server ([cx_submit] @ [cx_report])"
    by (simp add: cx_submit_def cx_report_def init_server_def keys_def)
  have "0 < length (requests (run init_server [cx_submit]))"
    by (simp add: handle_cx_submit)
  then show ?thesis
    using status_transitions[OF h1 h2] h1 h2 by (auto simp: handle_cx_submit)
qed

subsection \<open>Validation of a submission\<close>

lemma check_one:
  "py_all_in [''id'', ''demand'', ''x'', ''y''] c = Inr True \<longleftrightarrow>
     (customer_has ''id'' c \<and> customer_has ''demand'' c \<and> customer_has ''x'' c \<and> customer_has ''y'' c)"
  by (auto simp: customer_has_def split: sum.splits if_splits)

lemma check_customers_None: "check_customers i cs = Inr None \<longleftrightarrow> valid_customers cs"
proof (induction cs arbitrary: i)
  case Nil
  show ?case by (simp add: valid_customers_def)
next
  case (Cons c cs)
  have v: "valid_customers (c # cs) \<longleftrightarrow>
     (py_all_in [''id'', ''demand'', ''x'', ''y''] c = Inr True \<and> valid_customers cs)"
    unfolding check_one by (auto simp: valid_customers_def)
  show ?case
  proof (cases "py_all_in [''id'', ''demand'', ''x'', ''y''] c")
    case (Inl e)
    then show ?thesis using v by simp
  next
    case (Inr ok)
    then show ?thesis using v Cons.IH[of "Suc i"] by (cases ok) simp_all
  qed
qed

lemma new_request_valid:
  assumes "valid_submission p"
  shows "new_request s p uuid now =
     (s\<lparr>requests := dict_set uuid \<lparr>data = p, status = Pending, timestamp = now\<rparr> (requests s)\<rparr>,
      accepted_response uuid)"
proof -
  from assms obtain kvs where p: "p = JObj kvs"
    by (cases p) (simp_all add: valid_submission_def)
  from assms p obtain w where w: "map_of kvs ''customers'' = Some w"
    by (cases "map_of kvs ''customers''") (simp_all add: valid_submission_def)
  from assms p w obtain cs where cs: "w = JArr cs"
    by (cases w) (simp_all add: valid_submission_def)
  from w cs have m: "map_of kvs ''customers'' = Some (JArr cs)" by simp
  from assms p m have v: "valid_customers cs"
    by (simp add: valid_submission_def)
  from m have ne: "kvs \<noteq> []" by auto
  from m have k: "''customers'' \<in> fst ` set kvs"
    by (metis map_of_eq_None_iff option.distinct(1))
  have c: "check_customers 0 cs = Inr None"
    using v by (simp add: check_customers_None)
  show ?thesis
    unfolding new_request_def
    using p m ne k c by (simp add: add_request_def accepted_response_def)
qed

lemma new_request_invalid:
  assumes "\<not> valid_submission p"
  shows "fst (new_request s p uuid now) = s \<and> is_rejection (snd (new_request s p uuid now))"
proof (cases "truthy p")
  case False
  then show ?thesis by (simp add: new_request_def is_rejection_def)
next
  case True
  show ?thesis
  proof (cases "py_in ''customers'' p")
    case (Inl e)
    then show ?thesis using True by (simp add: new_request_def is_rejection_def)
  next
    case (Inr has)
    show ?thesis
    proof (cases has)
      case False
      then show ?thesis using True Inr by (simp add: new_request_def is_rejection_def)
    next
      case has: True
      show ?thesis
      proof (cases "py_getitem p ''customers''")
        case (Inl e)
        then show ?thesis using True Inr has by (simp add: new_request_def is_rejection_def)
      next
        case g: (Inr v)
        then obtain kvs where p: "p = JObj kvs" and m: "map_of kvs ''customers'' = Some v"
          by (cases p) (auto split: option.splits)
        show ?thesis
        proof (cases "\<exists>cs. v = JArr cs")
          case False
          then show ?thesis using True Inr has g
            by (cases v) (simp_all add: new_request_def is_rejection_def)
        next
          case True
          then obtain cs where cs: "v = JArr cs" by auto
          with assms p m have nv: "\<not> valid_customers cs"
            by (simp add: valid_submission_def)
          then have "check_customers 0 cs \<noteq> Inr None"
            by (simp add: check_customers_None)
          then show ?thesis using \<open>truthy p\<close> Inr has g cs
            by (auto simp: new_request_def is_rejection_def split: sum.splits option.splits)
        qed
      qed
    qed
  qed
qed

text \<open>
  C6, as amended. A call that is not a solution report accepts the payload exactly when it
  is a JSON object whose \<^verbatim>\<open>customers\<close> is a list, possibly empty, of customers that each
  have id, demand, x and y: it then answers 202 with the identifier drawn and puts a
  pending request under it, at the end of the ledger when the identifier is new. Any other
  payload is rejected and the store is left as it was.
\<close>

theorem submit_validation:
  assumes "action \<noteq> Some ''response''"
  shows "(valid_submission p \<longrightarrow>
            submit_solution s action p uuid now =
              (s\<lparr>requests := dict_set uuid \<lparr>data = p, status = Pending, timestamp = now\<rparr> (requests s)\<rparr>,
               accepted_response uuid)
            \<and> (uuid \<notin> keys (requests s) \<longrightarrow>
                 dict_set uuid \<lparr>data = p, status = Pending, timestamp = now\<rparr> (requests s) =
                 requests s @ [(uuid, \<lparr>data = p, status = Pending, timestamp = now\<rparr>)]))
       \<and> (\<not> valid_submission p \<longrightarrow>
            fst (submit_solution s action p uuid now) = s
            \<and> is_rejection (snd (submit_solution s action p uuid now)))"
  using assms new_request_valid[of p s uuid now] new_request_invalid[of p s uuid now]
  by (simp add: submit_solution_def dict_set_fresh)

text \<open>C6 as stated fails: a payload with an empty customer list is accepted.\<close>

theorem submit_validation_counterexample:
  "\<not> valid_submission_claimed empty_customers
   \<and> submit_solution init_server None empty_customers ''u1'' 0 =
       (init_server\<lparr>requests := [(''u1'', \<lparr>data = empty_customers, status = Pending, timestamp = 0\<rparr>)]\<rparr>,
        accepted_response ''u1'')"
  by (simp add: valid_submission_claimed_def empty_customers_def submit_solution_def
      new_request_def add_request_def accepted_response_def init_server_def)

theorem submit_validation_witness:
  "None \<noteq> Some ''response'' \<and> valid_submission payload1 \<and> \<not> valid_submission no_demand
   \<and> submit_solution init_server None payload1 ''u1'' 0 =
       (init_server\<lparr>requests := [(''u1'', \<lparr>data = payload1, status = Pending, timestamp = 0\<rparr>)]\<rparr>,
        accepted_response ''u1'')
   \<and> fst (submit_solution init_server None no_demand ''u1'' 0) = init_server
   \<and> is_rejection (snd (submit_solution init_server None no_demand ''u1'' 0))"
proof -
  have a: "(None :: string option) \<noteq> Some ''response''" by simp
  have v: "valid_submission payload1"
    by (simp add: valid_submission_def payload1_def valid_customers_def customer_has_def)
  have n: "\<not> valid_submission no_demand"
    by (simp add: valid_submission_def no_demand_def valid_customers_def customer_has_def)
  have k: "''u1'' \<notin> keys (requests init_server)"
    by (simp add: keys_def init_server_def)
  have r: "requests init_server = []" by (simp add: init_server_def)
  show ?thesis
    using submit_validation[OF a, of payload1 init_server "''u1''" 0]
      submit_validation[OF a, of no_demand init_server "''u1''" 0] v n k r
    by simp
qed

subsection \<open>Reporting a solution twice\<close>

lemma keys_map_of: "k \<in> keys kvs \<Longrightarrow> \<exists>v. map_of kvs k = Some v"
  unfolding keys_def by (induction kvs) auto

lemma report_solution_known:
  assumes "rid \<in> keys (requests s)" "rid \<noteq> []" "py_get S ''request_id'' JNull = Inr (JStr rid)"
  shows "report_solution s S now =
     (s\<lparr>requests := dict_update rid (\<lambda>r. r\<lparr>status := Completed\<rparr>) (requests s),
        solutions := (solutions s)(rid \<mapsto> \<lparr>solution = S, sol_timestamp = now\<rparr>)\<rparr>,
      solution_received)"
proof -
  from assms(3) obtain kvs where S: "S = JObj kvs"
    by (cases S) simp_all
  with assms(3) have g: "dict_get kvs ''request_id'' JNull = JStr rid" by simp
  then have "kvs \<noteq> []" by (auto simp: dict_get_def)
  then show ?thesis
    using assms(1,2) S g
    by (simp add: report_solution_def add_solution_def solution_received_def)
qed

lemma get_solution_status_completed:
  assumes "rid \<in> keys (requests s)" "solutions s rid = Some e"
  shows "get_solution_status s rid = completed_response rid (solution e)"
  using keys_map_of[OF assms(1)] assms(2)
  by (auto simp: get_solution_status_def get_solution_def completed_response_def)

lemma keys_dict_update: "keys (dict_update k f kvs) = keys kvs"
  by (simp add: keys_def map_fst_dict_update)

text \<open>
  C4, as amended. For a request in the ledger, two reports of a solution one after the
  other both answer success, and the second overwrites the first: the stored solution is
  the one reported last, and the status query returns it.
\<close>

theorem duplicate_report_last_wins:
  assumes "rid \<in> keys (requests s)" and "rid \<noteq> []"
    and "py_get S1 ''request_id'' JNull = Inr (JStr rid)"
    and "py_get S2 ''request_id'' JNull = Inr (JStr rid)"
    and "submit_solution s (Some ''response'') S1 u1 t1 = (s1, r1)"
    and "submit_solution s1 (Some ''response'') S2 u2 t2 = (s2, r2)"
  shows "r1 = solution_received \<and> r2 = solution_received
     \<and> get_solution s1 rid = Some S1
     \<and> get_solution s2 rid = Some S2
     \<and> get_solution_status s2 rid = completed_response rid S2"
proof -
  have a: "(s1, r1) = (s\<lparr>requests := dict_update rid (\<lambda>r. r\<lparr>status := Completed\<rparr>) (requests s),
        solutions := (solutions s)(rid \<mapsto> \<lparr>solution = S1, sol_timestamp = t1\<rparr>)\<rparr>,
      solution_received)"
    using report_solution_known[OF assms(1,2,3), of t1] assms(5)
    by (simp add: submit_solution_def)
  then have k1: "rid \<in> keys (requests s1)"
    using assms(1) by (simp add: keys_dict_update)
  have b: "(s2, r2) = (s1\<lparr>requests := dict_update rid (\<lambda>r. r\<lparr>status := Completed\<rparr>) (requests s1),
        solutions := (solutions s1)(rid \<mapsto> \<lparr>solution = S2, sol_timestamp = t2\<rparr>)\<rparr>,
      solution_received)"
    using report_solution_known[OF k1 assms(2,4), of t2] assms(6)
    by (simp add: submit_solution_def)
  then have k2: "rid \<in> keys (requests s2)"
    using k1 by (simp add: keys_dict_update)
  have e: "solutions s2 rid = Some \<lparr>solution = S2, sol_timestamp = t2\<rparr>"
    using b by simp
  show ?thesis
    using a b get_solution_status_completed[OF k2 e]
    by (simp add: get_solution_def)
qed

lemma ledger3_report_a:
  "submit_solution ledger3 (Some ''response'') sol_a [] 5 =
    (ledger3\<lparr>requests :=
        [(''a'', \<lparr>data = payload1, status = Processing, timestamp = 1\<rparr>),
         (''b'', \<lparr>data = payload1, status = Completed, timestamp = 2\<rparr>),
         (''c'', \<lparr>data = payload1, status = Pending, timestamp = 3\<rparr>)],
       solutions := [''b'' \<mapsto> \<lparr>solution = sol_a, sol_timestamp = 5\<rparr>]\<rparr>, solution_received)"
  by (simp add: submit_solution_def report_solution_def sol_a_def dict_get_def add_solution_def
      ledger3_def keys_def init_server_def solution_received_def)

lemma ledger3_report_b:
  "submit_solution (fst (submit_solution ledger3 (Some ''response'') sol_a [] 5))
      (Some ''response'') sol_b [] 6 =
    (ledger3\<lparr>requests :=
        [(''a'', \<lparr>data = payload1, status = Processing, timestamp = 1\<rparr>),
         (''b'', \<lparr>data = payload1, status = Completed, timestamp = 2\<rparr>),
         (''c'', \<lparr>data = payload1, status = Pending, timestamp = 3\<rparr>)],
       solutions := [''b'' \<mapsto> \<lparr>solution = sol_b, sol_timestamp = 6\<rparr>]\<rparr>, solution_received)"
  unfolding ledger3_report_a
  by (simp add: submit_solution_def report_solution_def sol_b_def dict_get_def add_solution_def
      ledger3_def keys_def init_server_def solution_received_def)

text \<open>C4 as stated fails: after the second report the stored solution is not the first
  one any more.\<close>

theorem duplicate_report_counterexample:
  "get_solution (fst (submit_solution ledger3 (Some ''response'') sol_a [] 5)) ''b'' = Some sol_a
   \<and> snd (submit_solution (fst (submit_solution ledger3 (Some ''response'') sol_a [] 5))
           (Some ''response'') sol_b [] 6) = solution_received
   \<and> get_solution (fst (submit_solution (fst (submit_solution ledger3 (Some ''response'') sol_a [] 5))
           (Some ''response'') sol_b [] 6)) ''b'' \<noteq> Some sol_a"
  unfolding ledger3_report_b
  unfolding ledger3_report_a
  by (simp add: get_solution_def sol_a_def sol_b_def)

theorem duplicate_report_last_wins_witness:
  "''b'' \<in> keys (requests ledger3) \<and> ''b'' \<noteq> []
   \<and> py_get sol_a ''request_id'' JNull = Inr (JStr ''b'')
   \<and> py_get sol_b ''request_id'' JNull = Inr (JStr ''b'')
   \<and> get_solution (fst (submit_solution (fst (submit_solution ledger3 (Some ''response'') sol_a [] 5))
           (Some ''response'') sol_b [] 6)) ''b'' = Some sol_b
   \<and> get_solution_status (fst (submit_solution (fst (submit_solution ledger3 (Some ''response'') sol_a [] 5))
           (Some ''response'') sol_b [] 6)) ''b'' = completed_response ''b'' sol_b"
proof -
  have h1: "''b'' \<in> keys (requests ledger3)" by (simp add: ledger3_def keys_def)
  have h2: "''b'' \<noteq> []" by simp
  have h3: "py_get sol_a ''request_id'' JNull = Inr (JStr ''b'')"
    by (simp add: sol_a_def dict_get_def)
  have h4: "py_get sol_b ''request_id'' JNull = Inr (JStr ''b'')"
    by (simp add: sol_b_def dict_get_def)
  show ?thesis
    using duplicate_report_last_wins[OF h1 h2 h3 h4 surjective_pairing surjective_pairing,
        of "[]" 5 "[]" 6] h1 h3 h4
    by simp
qed

subsection \<open>The life of a request\<close>



lemma solutions_handle:
  "solutions (fst (handle s c)) = solutions s
   \<or> (\<exists>rid e. rid \<in> keys (requests s) \<and> solutions (fst (handle s c)) = (solutions s)(rid \<mapsto> e))"
proof (cases c)
  case (PollRequest a)
  then show ?thesis
    by (auto simp: poll_request_def get_pending_request_def split: prod.splits option.splits)
next
  case (SubmitSolution action body uuid now)
  show ?thesis
  proof (cases "action = Some ''response''")
    case True
    then show ?thesis using SubmitSolution
      by (auto simp: submit_solution_def report_solution_def add_solution_def
          split: sum.splits json.splits)
  next
    case False
    then show ?thesis using SubmitSolution
      by (auto simp: submit_solution_def new_request_def add_request_def
          split: sum.splits json.splits option.splits)
  qed
next
  case (UpdateVehiclePosition b now)
  then show ?thesis by (auto simp: update_vehicle_position_def Let_def split: json.splits)
next
  case (ConfirmVehicles b now)
  then show ?thesis by (auto simp: confirm_vehicles_def Let_def split: json.splits sum.splits)
next
  case PollVehicleConfig
  then show ?thesis by (auto simp: poll_vehicle_config_def split: option.splits)
qed

lemma keys_handle:
  assumes "fresh_uuid s c"
  shows "keys (requests s) \<subseteq> keys (requests (fst (handle s c)))"
proof -
  have a: "keys (fst (claim_scan reqs)) = keys reqs" for reqs
    unfolding keys_def by (simp only: map_fst_claim_scan)
  have b: "keys (reqs @ [kv]) = insert (fst kv) (keys reqs)" for reqs :: "(string \<times> request) list" and kv
    by (simp add: keys_def)
  from handle_requests[OF assms] show ?thesis
  proof (elim disjE exE conjE)
    assume "requests (fst (handle s c)) = requests s"
    then show ?thesis by simp
  next
    assume "requests (fst (handle s c)) = fst (claim_scan (requests s))"
    then show ?thesis by (simp add: a)
  next
    fix rid
    assume "requests (fst (handle s c)) =
           dict_update rid (\<lambda>r. r\<lparr>status := Completed\<rparr>) (requests s)"
    then show ?thesis by (simp add: keys_dict_update)
  next
    fix u v
    assume "requests (fst (handle s c)) = requests s @ [(u, v)]"
    then show ?thesis by (auto simp: b)
  qed
qed

lemma handle_store_ok:
  assumes "fresh_uuid s c" "store_ok s"
  shows "store_ok (fst (handle s c))"
proof -
  have d: "distinct (map fst (requests (fst (handle s c))))"
    using assms handle_distinct by (simp add: store_ok_def)
  have sub: "dom (solutions s) \<subseteq> keys (requests s)"
    using assms(2) by (simp add: store_ok_def)
  have "dom (solutions (fst (handle s c))) \<subseteq> keys (requests s)"
    using solutions_handle[of s c]
  proof (elim disjE exE conjE)
    assume "solutions (fst (handle s c)) = solutions s"
    then show ?thesis using sub by simp
  next
    fix rid e
    assume "rid \<in> keys (requests s)" "solutions (fst (handle s c)) = (solutions s)(rid \<mapsto> e)"
    then show ?thesis using sub by auto
  qed
  then show ?thesis using d keys_handle[OF assms(1)] by (auto simp: store_ok_def)
qed

lemma run_store_ok:
  "fresh_uuids s cs \<Longrightarrow> store_ok s \<Longrightarrow> store_ok (run s cs)"
  by (induction cs arbitrary: s) (auto simp: handle_store_ok)



subsection \<open>The one-shot mailbox of the fleet configuration\<close>

lemma confirm_vehicles_200:
  assumes "confirm_vehicles s body now = (s1, JsonResp b 200)"
  shows "\<exists>vs d. py_getitem body ''vehicles'' = Inr (JArr vs) \<and> vs \<noteq> []
           \<and> py_get body ''depot'' default_depot = Inr d
           \<and> s1 = s\<lparr>vehicle_config := Some \<lparr>vehicles = vs, depot = d\<rparr>,
                    vehicle_config_timestamp := Some now\<rparr>"
  using assms
  by (auto simp: confirm_vehicles_def Let_def split: if_splits sum.splits json.splits)

lemma show_nat_2: "show_nat (Suc (Suc 0)) = ''2''"
  by code_simp

lemma confirm_two_vehicles:
  "confirm_vehicles init_server two_vehicles 7 =
     (cfg_s1,
      JsonResp (JObj [(''success'', JBool True),
        (''message'', JStr ''2 vehicles confirmed. Agents will be created.''),
        (''vehicles'', JArr [JStr ''V1'', JStr ''V2''])]) 200)"
  by (simp add: confirm_vehicles_def two_vehicles_def two_vehicles_config_def dict_get_def
      show_nat_2 Let_def cfg_s1_def)

lemma valid_vehicle_obj:
  assumes "valid_vehicle v"
  obtains kvs n c m where "v = JObj kvs" "map_of kvs ''name'' = Some n"
    "map_of kvs ''capacity'' = Some c" "map_of kvs ''maxDistance'' = Some m"
proof -
  from assms obtain kvs where v: "v = JObj kvs"
    by (cases v) (simp_all add: valid_vehicle_def)
  with assms have k: "''name'' \<in> fst ` set kvs" "''capacity'' \<in> fst ` set kvs"
    "''maxDistance'' \<in> fst ` set kvs"
    by (simp_all add: valid_vehicle_def)
  from k(1) obtain n where "map_of kvs ''name'' = Some n"
    by (metis map_of_eq_None_iff not_Some_eq)
  moreover from k(2) obtain c where "map_of kvs ''capacity'' = Some c"
    by (metis map_of_eq_None_iff not_Some_eq)
  moreover from k(3) obtain m where "map_of kvs ''maxDistance'' = Some m"
    by (metis map_of_eq_None_iff not_Some_eq)
  ultimately show ?thesis using that v by blast
qed

lemma valid_vehicle_checks:
  assumes "valid_vehicle v"
  shows "py_all_in [''name'', ''capacity'', ''maxDistance''] v = Inr True"
    and "py_getitem v ''name'' = Inr (vehicle_name_of v)"
    and "\<exists>c. py_getitem v ''capacity'' = Inr c"
    and "\<exists>m. py_getitem v ''maxDistance'' = Inr m"
proof -
  from assms obtain kvs n c m where v: "v = JObj kvs" and n: "map_of kvs ''name'' = Some n"
    and c: "map_of kvs ''capacity'' = Some c" and m: "map_of kvs ''maxDistance'' = Some m"
    by (rule valid_vehicle_obj)
  from assms v show "py_all_in [''name'', ''capacity'', ''maxDistance''] v = Inr True"
    by (simp add: valid_vehicle_def)
  show "py_getitem v ''name'' = Inr (vehicle_name_of v)"
    using v n by (simp add: vehicle_name_of_def dict_get_def)
  show "\<exists>c. py_getitem v ''capacity'' = Inr c" using v c by simp
  show "\<exists>m. py_getitem v ''maxDistance'' = Inr m" using v m by simp
qed

lemma valid_vehicles_loops:
  assumes "\<forall>v \<in> set vs. valid_vehicle v"
  shows "check_vehicles vs = Inr True" and "print_vehicles vs = Inr ()"
    and "vehicle_names vs = Inr (map vehicle_name_of vs)"
  using assms
proof (induction vs)
  case Nil
  {
    case 1 show ?case by simp
  next
    case 2 show ?case by simp
  next
    case 3 show ?case by simp
  }
next
  case (Cons v vs)
  {
    case 1
    then show ?case using Cons.IH(1) valid_vehicle_checks(1)[of v] by simp
  next
    case 2
    then show ?case using Cons.IH(2) valid_vehicle_checks(2,3,4)[of v] by auto
  next
    case 3
    then show ?case using Cons.IH(3) valid_vehicle_checks(2)[of v] by simp
  }
qed

lemma confirm_vehicles_valid:
  assumes "map_of kvs ''vehicles'' = Some (JArr vs)" and "vs \<noteq> []"
    and "\<forall>v \<in> set vs. valid_vehicle v"
  shows "confirm_vehicles s (JObj kvs) now =
     (s\<lparr>vehicle_config := Some \<lparr>vehicles = vs, depot = dict_get kvs ''depot'' default_depot\<rparr>,
        vehicle_config_timestamp := Some now\<rparr>,
      confirmed_response vs)"
proof -
  from assms(1) have ne: "kvs \<noteq> []" by auto
  from assms(1) have k: "''vehicles'' \<in> fst ` set kvs"
    by (metis map_of_eq_None_iff option.distinct(1))
  show ?thesis
    using assms(1,2) ne k valid_vehicles_loops[OF assms(3)]
    by (simp add: confirm_vehicles_def confirmed_response_def Let_def)
qed

text \<open>
  C7. A configuration in the slot is returned by the first poll, which empties the slot,
  and the poll after it answers the empty 204; a poll on an empty slot answers 204 and
  changes nothing. A confirmation whose body has a list of one or more vehicles, each a
  JSON object with name, capacity and maxDistance, is answered 200 in every state of the
  store and puts these vehicles and the depot of the body in the slot, whatever was there
  before; and whenever a confirmation is answered 200, the slot holds the vehicles and the
  depot of its body, and the next two polls return that configuration and then nothing.
\<close>

theorem one_shot_mailbox:
  "(\<forall>c. vehicle_config s = Some c \<longrightarrow>
       poll_vehicle_config s = (s\<lparr>vehicle_config := None\<rparr>, config_response c (vehicle_config_timestamp s))
       \<and> poll_vehicle_config (s\<lparr>vehicle_config := None\<rparr>) = (s\<lparr>vehicle_config := None\<rparr>, EmptyResp 204))
   \<and> (vehicle_config s = None \<longrightarrow> poll_vehicle_config s = (s, EmptyResp 204))
   \<and> (\<forall>kvs vs. map_of kvs ''vehicles'' = Some (JArr vs) \<and> vs \<noteq> []
          \<and> (\<forall>v \<in> set vs. valid_vehicle v) \<longrightarrow>
        confirm_vehicles s (JObj kvs) now =
          (s\<lparr>vehicle_config := Some \<lparr>vehicles = vs, depot = dict_get kvs ''depot'' default_depot\<rparr>,
             vehicle_config_timestamp := Some now\<rparr>,
           confirmed_response vs))
   \<and> (\<forall>s1 b. confirm_vehicles s body now = (s1, JsonResp b 200) \<longrightarrow>
        (\<exists>vs d. py_getitem body ''vehicles'' = Inr (JArr vs)
           \<and> py_get body ''depot'' default_depot = Inr d
           \<and> s1 = s\<lparr>vehicle_config := Some \<lparr>vehicles = vs, depot = d\<rparr>,
                    vehicle_config_timestamp := Some now\<rparr>
           \<and> poll_vehicle_config s1 =
                (s1\<lparr>vehicle_config := None\<rparr>, config_response \<lparr>vehicles = vs, depot = d\<rparr> (Some now))
           \<and> poll_vehicle_config (s1\<lparr>vehicle_config := None\<rparr>) =
                (s1\<lparr>vehicle_config := None\<rparr>, EmptyResp 204)))"
proof (intro conjI allI impI)
  fix c assume "vehicle_config s = Some c"
  then show "poll_vehicle_config s = (s\<lparr>vehicle_config := None\<rparr>, config_response c (vehicle_config_timestamp s))"
    by (simp add: poll_vehicle_config_def config_response_def)
next
  fix c
  show "poll_vehicle_config (s\<lparr>vehicle_config := None\<rparr>) = (s\<lparr>vehicle_config := None\<rparr>, EmptyResp 204)"
    by (simp add: poll_vehicle_config_def)
next
  assume "vehicle_config s = None"
  then show "poll_vehicle_config s = (s, EmptyResp 204)"
    by (simp add: poll_vehicle_config_def)
next
  fix kvs vs
  assume "map_of kvs ''vehicles'' = Some (JArr vs) \<and> vs \<noteq> [] \<and> (\<forall>v \<in> set vs. valid_vehicle v)"
  then show "confirm_vehicles s (JObj kvs) now =
          (s\<lparr>vehicle_config := Some \<lparr>vehicles = vs, depot = dict_get kvs ''depot'' default_depot\<rparr>,
             vehicle_config_timestamp := Some now\<rparr>,
           confirmed_response vs)"
    using confirm_vehicles_valid[of kvs vs s now] by blast
next
  fix s1 b assume "confirm_vehicles s body now = (s1, JsonResp b 200)"
  from confirm_vehicles_200[OF this] obtain vs d where
    h: "py_getitem body ''vehicles'' = Inr (JArr vs)" "py_get body ''depot'' default_depot = Inr d"
      "s1 = s\<lparr>vehicle_config := Some \<lparr>vehicles = vs, depot = d\<rparr>, vehicle_config_timestamp := Some now\<rparr>"
    by auto
  have "poll_vehicle_config s1 =
                (s1\<lparr>vehicle_config := None\<rparr>, config_response \<lparr>vehicles = vs, depot = d\<rparr> (Some now))"
    using h(3) by (simp add: poll_vehicle_config_def config_response_def)
  moreover have "poll_vehicle_config (s1\<lparr>vehicle_config := None\<rparr>) =
                (s1\<lparr>vehicle_config := None\<rparr>, EmptyResp 204)"
    by (simp add: poll_vehicle_config_def)
  ultimately show "\<exists>vs d. py_getitem body ''vehicles'' = Inr (JArr vs)
           \<and> py_get body ''depot'' default_depot = Inr d
           \<and> s1 = s\<lparr>vehicle_config := Some \<lparr>vehicles = vs, depot = d\<rparr>,
                    vehicle_config_timestamp := Some now\<rparr>
           \<and> poll_vehicle_config s1 =
                (s1\<lparr>vehicle_config := None\<rparr>, config_response \<lparr>vehicles = vs, depot = d\<rparr> (Some now))
           \<and> poll_vehicle_config (s1\<lparr>vehicle_config := None\<rparr>) =
                (s1\<lparr>vehicle_config := None\<rparr>, EmptyResp 204)"
    using h by blast
qed

theorem one_shot_mailbox_witness:
  "vehicle_config cfg_s1 = Some two_vehicles_config
   \<and> confirm_vehicles cfg_s1 (JObj one_vehicle) 8 =
       (cfg_s2, confirmed_response (vehicles one_vehicle_config))
   \<and> poll_vehicle_config cfg_s2 =
       (cfg_s2\<lparr>vehicle_config := None\<rparr>, config_response one_vehicle_config (Some 8))
   \<and> poll_vehicle_config (cfg_s2\<lparr>vehicle_config := None\<rparr>) =
       (cfg_s2\<lparr>vehicle_config := None\<rparr>, EmptyResp 204)
   \<and> vehicle_config init_server = None
   \<and> poll_vehicle_config init_server = (init_server, EmptyResp 204)"
proof -
  have n: "vehicle_config init_server = None" by (simp add: init_server_def)
  have c1: "vehicle_config cfg_s1 = Some two_vehicles_config" by (simp add: cfg_s1_def)
  have c2: "vehicle_config cfg_s2 = Some one_vehicle_config" by (simp add: cfg_s2_def)
  have t2: "vehicle_config_timestamp cfg_s2 = Some 8" by (simp add: cfg_s2_def)
  have h: "map_of one_vehicle ''vehicles'' = Some (JArr (vehicles one_vehicle_config))
     \<and> vehicles one_vehicle_config \<noteq> []
     \<and> (\<forall>v \<in> set (vehicles one_vehicle_config). valid_vehicle v)"
    by (simp add: one_vehicle_def one_vehicle_config_def valid_vehicle_def)
  have d: "\<lparr>vehicles = vehicles one_vehicle_config,
            depot = dict_get one_vehicle ''depot'' default_depot\<rparr> = one_vehicle_config"
    by (simp add: one_vehicle_def one_vehicle_config_def dict_get_def)
  have a: "confirm_vehicles cfg_s1 (JObj one_vehicle) 8 =
       (cfg_s2, confirmed_response (vehicles one_vehicle_config))"
    using one_shot_mailbox[of cfg_s1 8 body, THEN conjunct2, THEN conjunct2, THEN conjunct1,
        rule_format, OF h]
    by (simp only: d cfg_s2_def)
  have p: "poll_vehicle_config cfg_s2 =
       (cfg_s2\<lparr>vehicle_config := None\<rparr>, config_response one_vehicle_config (Some 8))
     \<and> poll_vehicle_config (cfg_s2\<lparr>vehicle_config := None\<rparr>) =
       (cfg_s2\<lparr>vehicle_config := None\<rparr>, EmptyResp 204)"
    using one_shot_mailbox[of cfg_s2 0 JNull, THEN conjunct1, rule_format, OF c2]
    by (simp only: t2)
  have e: "poll_vehicle_config init_server = (init_server, EmptyResp 204)"
    using one_shot_mailbox[of init_server 0 JNull, THEN conjunct2, THEN conjunct1] n
    by simp
  show ?thesis
    using a p c1 n e by (simp only: simp_thms)
qed

subsection \<open>Updating a vehicle position\<close>

lemma dict_get_missing: "k \<notin> fst ` set kvs \<Longrightarrow> dict_get kvs k d = d"
  by (simp add: dict_get_def map_of_eq_None_iff[THEN iffD2])

text \<open>
  C10, as amended. A body that is a JSON object whose \<^verbatim>\<open>vehicle_name\<close> is not falsy and can
  be a dict key is accepted: the entry built from the body replaces whatever was stored
  under that name and the answer is the 200 success response. In that entry a missing x or
  y is 0.0, a missing status is idle, a missing route_id, target_x or target_y is null.
\<close>

theorem update_position_defaults:
  assumes "truthy (dict_get kvs ''vehicle_name'' JNull)"
    and "hashable (dict_get kvs ''vehicle_name'' JNull)"
  shows "update_vehicle_position s (JObj kvs) now =
      (s\<lparr>vehicle_positions := (vehicle_positions s)
           (py_key (dict_get kvs ''vehicle_name'' JNull) \<mapsto> position_of kvs now)\<rparr>,
       position_updated (dict_get kvs ''vehicle_name'' JNull))
    \<and> (''x'' \<notin> fst ` set kvs \<longrightarrow> pos_x (position_of kvs now) = JFloat 0)
    \<and> (''y'' \<notin> fst ` set kvs \<longrightarrow> pos_y (position_of kvs now) = JFloat 0)
    \<and> (''status'' \<notin> fst ` set kvs \<longrightarrow> pos_status (position_of kvs now) = JStr ''idle'')
    \<and> (''route_id'' \<notin> fst ` set kvs \<longrightarrow> route_id (position_of kvs now) = JNull)
    \<and> (''target_x'' \<notin> fst ` set kvs \<longrightarrow> target_x (position_of kvs now) = JNull)
    \<and> (''target_y'' \<notin> fst ` set kvs \<longrightarrow> target_y (position_of kvs now) = JNull)"
proof -
  from assms(1) have ne: "kvs \<noteq> []" by (auto simp: dict_get_def)
  have u: "update_vehicle_position s (JObj kvs) now =
      (s\<lparr>vehicle_positions := (vehicle_positions s)
           (py_key (dict_get kvs ''vehicle_name'' JNull) \<mapsto> position_of kvs now)\<rparr>,
       position_updated (dict_get kvs ''vehicle_name'' JNull))"
    using assms ne
    by (simp add: update_vehicle_position_def Let_def position_of_def position_updated_def)
  show ?thesis
    using u by (simp add: position_of_def dict_get_missing)
qed

text \<open>C10 as stated fails: a body whose \<^verbatim>\<open>vehicle_name\<close> is the empty string contains a
  vehicle_name and is rejected with 400.\<close>

theorem update_position_counterexample:
  "py_in ''vehicle_name'' empty_name = Inr True
   \<and> update_vehicle_position init_server empty_name 0 =
       (init_server, JsonResp (JObj [(''error'', JStr ''vehicle_name required'')]) 400)"
  by (simp add: empty_name_def update_vehicle_position_def dict_get_def)

theorem update_position_defaults_witness:
  "truthy (dict_get only_name ''vehicle_name'' JNull)
   \<and> hashable (dict_get only_name ''vehicle_name'' JNull)
   \<and> update_vehicle_position init_server (JObj only_name) 3 =
      (init_server\<lparr>vehicle_positions := [JStr ''DA1'' \<mapsto>
          \<lparr>pos_x = JFloat 0, pos_y = JFloat 0, pos_status = JStr ''idle'', route_id = JNull,
           target_x = JNull, target_y = JNull, pos_timestamp = 3\<rparr>]\<rparr>,
       position_updated (JStr ''DA1''))"
proof -
  have n: "dict_get only_name ''vehicle_name'' JNull = JStr ''DA1''"
    by (simp add: only_name_def dict_get_def)
  have h1: "truthy (dict_get only_name ''vehicle_name'' JNull)" by (simp add: n)
  have h2: "hashable (dict_get only_name ''vehicle_name'' JNull)" by (simp add: n)
  have p: "position_of only_name 3 =
          \<lparr>pos_x = JFloat 0, pos_y = JFloat 0, pos_status = JStr ''idle'', route_id = JNull,
           target_x = JNull, target_y = JNull, pos_timestamp = 3\<rparr>"
    by (simp add: position_of_def only_name_def dict_get_def)
  have e: "vehicle_positions init_server = Map.empty" by (simp add: init_server_def)
  show ?thesis
    using update_position_defaults[OF h1 h2, of init_server 3, THEN conjunct1] h1 h2
    by (simp add: n p e)
qed

section \<open>Properties of the log parsers\<close>

subsection \<open>Movements read from a dispatcher log\<close>

text \<open>
  What the loop of \<^verbatim>\<open>get_da_movements\<close> does with a line on which the coordinate pattern
  finds nothing, when the queue tracking of the line raises nothing: the movements read
  from the log are the same with that line and without it.
\<close>

lemma track_queue_positions:
  "track_queue st line = Inr st' \<Longrightarrow> positions st' = positions st"
  "track_queue st line = Inl (e, st') \<Longrightarrow> positions st' = positions st"
  by (auto simp: track_queue_def Let_def split: option.splits sum.splits if_splits)

lemma track_queue_raises:
  "(\<exists>r. track_queue st1 line = Inl r) \<longleftrightarrow> (\<exists>r. track_queue st2 line = Inl r)"
  by (auto simp: track_queue_def Let_def split: option.splits sum.splits if_splits)

lemma positions_track_routes: "positions (track_routes st line) = positions st"
  by (simp add: track_routes_def split: option.splits)

lemma process_line_positions_cong:
  assumes "positions st1 = positions st2"
  shows "(\<exists>e a b. process_line st1 line = Inl (e, a) \<and> process_line st2 line = Inl (e, b)
            \<and> positions a = positions b)
       \<or> (\<exists>a b. process_line st1 line = Inr a \<and> process_line st2 line = Inr b
            \<and> positions a = positions b)"
proof (cases "track_queue st1 line")
  case (Inl r1)
  then obtain r2 where r2: "track_queue st2 line = Inl r2"
    using track_queue_raises[of st1 line st2] by auto
  obtain e1 a where r1: "r1 = (e1, a)" by (cases r1)
  obtain e2 b where r2': "r2 = (e2, b)" by (cases r2)
  have "e1 = ValueError" "e2 = ValueError"
    using Inl r2 r1 r2'
    by (auto simp: track_queue_def py_int_def Let_def split: option.splits sum.splits if_splits)
  moreover have "positions a = positions b"
    using track_queue_positions(2)[of st1 line e1 a] track_queue_positions(2)[of st2 line e2 b]
      Inl r2 r1 r2' assms by simp
  ultimately show ?thesis using Inl r2 r1 r2' by (simp add: process_line_def)
next
  case (Inr a1)
  then obtain b1 where b1: "track_queue st2 line = Inr b1"
    using track_queue_raises[of st2 line st1] by (cases "track_queue st2 line") auto
  have p: "positions (track_routes a1 line) = positions (track_routes b1 line)"
    using track_queue_positions(1)[OF Inr] track_queue_positions(1)[OF b1] assms
    by (simp add: positions_track_routes)
  show ?thesis
  proof (cases "line_position line")
    case (Inl e)
    then show ?thesis using Inr b1 p by (simp add: process_line_def Let_def)
  next
    case r: (Inr mo)
    then show ?thesis using Inr b1 p by (cases mo) (simp_all add: process_line_def Let_def)
  qed
qed

lemma positions_scan_lines_cong:
  "positions st1 = positions st2 \<Longrightarrow>
   positions (scan_lines st1 ls) = positions (scan_lines st2 ls)"
proof (induction ls arbitrary: st1 st2)
  case Nil
  then show ?case by simp
next
  case (Cons line ls)
  from process_line_positions_cong[OF Cons.prems, of line] show ?case
  proof (elim disjE exE conjE)
    fix e a b
    assume "process_line st1 line = Inl (e, a)" "process_line st2 line = Inl (e, b)"
      "positions a = positions b"
    then show ?thesis by simp
  next
    fix a b
    assume "process_line st1 line = Inr a" "process_line st2 line = Inr b"
      "positions a = positions b"
    then show ?thesis using Cons.IH[of a b] by simp
  qed
qed

lemma process_line_skip:
  assumes "re_search position_re bad = None" and "track_queue st bad = Inr st1"
  shows "process_line st bad = Inr (track_routes st1 bad)"
    and "positions (track_routes st1 bad) = positions st"
proof -
  have "line_position bad = Inr None"
    using assms(1) by (simp add: line_position_def)
  then show "process_line st bad = Inr (track_routes st1 bad)"
    using assms(2) by (simp add: process_line_def Let_def)
  show "positions (track_routes st1 bad) = positions st"
    using track_queue_positions(1)[OF assms(2)] by (simp add: positions_track_routes)
qed

lemma scan_lines_skip:
  assumes "re_search position_re bad = None" and "\<exists>st1. track_queue da_scan0 bad = Inr st1"
  shows "positions (scan_lines st (pre @ bad # post)) = positions (scan_lines st (pre @ post))"
proof (induction pre arbitrary: st)
  case Nil
  from assms(2) obtain st1 where "track_queue st bad = Inr st1"
    using track_queue_raises[of st bad da_scan0] by (cases "track_queue st bad") auto
  from process_line_skip[OF assms(1) this] positions_scan_lines_cong[of "track_routes st1 bad" st post]
  show ?case by simp
next
  case (Cons line pre)
  show ?case
  proof (cases "process_line st line")
    case (Inl r)
    then show ?thesis by (cases r) simp
  next
    case (Inr st')
    then show ?thesis using Cons.IH[of st'] by simp
  qed
qed

lemma malformed_line_skipped:
  "re_search position_re malformed_line = None
   \<and> positions (get_da_movements (malformed_line @ [10] @ arrival_line)) = [arrival_event]"
  by code_simp

text \<open>The example line, and a line whose first coordinate has two dots.\<close>

lemma arrival_line_positions:
  "positions (get_da_movements arrival_line) = [arrival_event]"
  by code_simp

lemma two_dots_line_raises:
  "re_search position_re two_dots_line = Some ([cps ''3.5.1'', cps ''7.2''], [])
   \<and> line_position two_dots_line = Inl ValueError"
  by code_simp

lemma two_dots_log_positions:
  "positions (get_da_movements (two_dots_line @ [10] @ arrival_line)) = []"
  by code_simp

lemma float_7_2: "py_float (cps ''7.2'') = Inr (double_of 36 5)"
  by code_simp

text \<open>
  C8. The arrival line of the example gives one movement: an arrival at x = 3.5 and at the
  double nearest to 7.2, of customer C5, with the timestamp of the line. On the line with
  the same marker whose first coordinate is 3.5.1, the coordinate pattern matches and
  \<^verbatim>\<open>float\<close> raises \<^verbatim>\<open>ValueError\<close>; the exception ends the loop over the lines, and in a log
  with that line before the arrival line the arrival is not read.
\<close>

theorem malformed_coordinates_end_the_scan:
  "positions (get_da_movements arrival_line) = [arrival_event]
   \<and> re_search position_re two_dots_line = Some ([cps ''3.5.1'', cps ''7.2''], [])
   \<and> line_position two_dots_line = Inl ValueError
   \<and> positions (get_da_movements (two_dots_line @ [10] @ arrival_line)) = []"
  using arrival_line_positions two_dots_line_raises two_dots_log_positions by simp

subsection \<open>The system state read from the logs\<close>

text \<open>
  C9. On a dispatcher log that queues R1 with queue size 1, takes R1, takes R2 and then
  queues R3 with queue size 2, \<^verbatim>\<open>get_system_state\<close> reports the first queue size and the
  first route taken, and the status executing although the last queue marker is an
  addition to the queue; \<^verbatim>\<open>get_da_movements\<close> reads the last queue size and the last
  route taken from the same log. On a route manager log with two unserved-customer counts
  \<^verbatim>\<open>get_system_state\<close> reports the first.
\<close>

theorem system_state_first_match:
  "get_system_state_da da_log =
     \<lparr>ds_status = ''executing'', ds_queue_size = 1, ds_current_route = Some (cps ''R1''),
      routes_completed = 0\<rparr>
   \<and> queue_size (get_da_movements da_log) = 2
   \<and> current_route (get_da_movements da_log) = Some (cps ''R2'')
   \<and> unserved_customers (get_system_state_mra mra_log) = 3"
  by code_simp

end
